theory Spec2Isabelle
  imports Main "HOL-Library.Word" "HOL-Library.Multiset" "HOL-Library.Sublist"
begin

section \<open>Machine types and the allocator backend\<close>

text \<open>
  The replayers are built for an LP64 target: \<open>size_t\<close>, \<open>uint64_t\<close>,
  \<open>unsigned long\<close> and pointers are 64-bit words, \<open>uint32_t\<close> and \<open>int\<close>
  are 32-bit words. Arithmetic on them wraps, as the unsigned C types do. A pointer is
  the word holding its address; the null pointer is the word \<open>0\<close>.
  The contents of an allocated region are never read back into a counter or a table,
  so the writes that only touch memory (\<open>memset\<close>, \<open>touch_memory\<close>, the bounded
  prefix loops before a release) are left out of the state.
\<close>

type_synonym size_t = "64 word"
type_synonym ptr = "64 word"

text \<open>
  \<open>AllocatorBackend\<close> (AllocatorBackend.h): the capability interface the managers call.
  What the underlying allocation primitive answers depends on a heap the program cannot
  see; the heap is a state \<open>'h\<close> threaded through the two calls, so every
  deterministic allocator is an instance.
\<close>

record 'h AllocatorBackend =
  backend_allocate :: "size_t \<Rightarrow> 'h \<Rightarrow> ptr \<times> 'h"
  backend_deallocate :: "ptr \<Rightarrow> 'h \<Rightarrow> 'h"

section \<open>The oracle replayer (OracleReplayer.h, OracleReplayer.cpp)\<close>

record Event =
  timestamp :: "64 word"
  event_type :: string
  object_id :: "64 word"
  ev_size :: size_t
  site_id :: "32 word"
  thread_id :: "64 word"
  type_id :: "32 word"

definition is_alloc :: "Event \<Rightarrow> bool" where
  "is_alloc e = (event_type e = ''alloc'')"

definition is_free :: "Event \<Rightarrow> bool" where
  "is_free e = (event_type e = ''free'')"

record AllocatedObject =
  address :: ptr
  obj_size :: size_t
  alloc_time :: "64 word"
  obj_site_id :: "32 word"

record oracle_Statistics =
  total_allocations :: "64 word"
  total_frees :: "64 word"
  bytes_allocated :: "64 word"
  bytes_freed :: "64 word"
  peak_memory :: "64 word"
  current_memory :: "64 word"
  allocations_per_site :: "32 word \<rightharpoonup> 64 word"
  bytes_per_site :: "32 word \<rightharpoonup> 64 word"
  total_lifetime :: "64 word"
  max_lifetime :: "64 word"
  min_lifetime :: "64 word"

definition oracle_Statistics_init :: oracle_Statistics where
  "oracle_Statistics_init =
     \<lparr>total_allocations = 0, total_frees = 0, bytes_allocated = 0, bytes_freed = 0,
      peak_memory = 0, current_memory = 0, allocations_per_site = Map.empty,
      bytes_per_site = Map.empty, total_lifetime = 0, max_lifetime = 0,
      min_lifetime = - 1\<rparr>"

text \<open>\<open>m[k]\<close> on a \<open>std::map\<close> of counters reads 0 for a key that is not there yet.\<close>

definition map_at :: "('k \<rightharpoonup> 64 word) \<Rightarrow> 'k \<Rightarrow> 64 word" where
  "map_at m k = (case m k of None \<Rightarrow> 0 | Some v \<Rightarrow> v)"

definition record_allocation :: "size_t \<Rightarrow> 32 word \<Rightarrow> oracle_Statistics \<Rightarrow> oracle_Statistics" where
  "record_allocation sz site st =
     (let st1 = st\<lparr>total_allocations := total_allocations st + 1,
                    bytes_allocated := bytes_allocated st + sz,
                    current_memory := current_memory st + sz\<rparr>;
          st2 = (if peak_memory st1 < current_memory st1
                 then st1\<lparr>peak_memory := current_memory st1\<rparr> else st1)
      in st2\<lparr>allocations_per_site :=
                 (allocations_per_site st2)(site \<mapsto> map_at (allocations_per_site st2) site + 1),
              bytes_per_site :=
                 (bytes_per_site st2)(site \<mapsto> map_at (bytes_per_site st2) site + sz)\<rparr>)"

definition record_free :: "size_t \<Rightarrow> 64 word \<Rightarrow> oracle_Statistics \<Rightarrow> oracle_Statistics" where
  "record_free sz lifetime st =
     (let st1 = st\<lparr>total_frees := total_frees st + 1,
                    bytes_freed := bytes_freed st + sz,
                    current_memory := current_memory st - sz,
                    total_lifetime := total_lifetime st + lifetime\<rparr>;
          st2 = (if max_lifetime st1 < lifetime then st1\<lparr>max_lifetime := lifetime\<rparr> else st1)
      in (if lifetime < min_lifetime st2 then st2\<lparr>min_lifetime := lifetime\<rparr> else st2))"

text \<open>
  The replayer object: the live object table, the pending-free queue (front of the
  queue is the head of the list, \<open>push\<close> appends), the statistics and the heap of the
  process. \<open>verbose_\<close> only selects progress output, which is not modelled.
\<close>

record 'h OracleReplayer =
  live_objects :: "64 word \<rightharpoonup> AllocatedObject"
  pending_frees :: "Event list"
  stats :: oracle_Statistics
  heap :: 'h

definition OracleReplayer_init :: "'h \<Rightarrow> 'h OracleReplayer" where
  "OracleReplayer_init h =
     \<lparr>live_objects = Map.empty, pending_frees = [], stats = oracle_Statistics_init, heap = h\<rparr>"

definition do_malloc :: "'h AllocatorBackend \<Rightarrow> size_t \<Rightarrow> 'h \<Rightarrow> ptr \<times> 'h" where
  "do_malloc be sz h = backend_allocate be sz h"

definition do_free :: "'h AllocatorBackend \<Rightarrow> ptr \<Rightarrow> 'h \<Rightarrow> 'h" where
  "do_free be p h = (if p \<noteq> 0 then backend_deallocate be p h else h)"

text \<open>One turn of the \<open>while\<close> loop of \<open>execute_pending_frees\<close>, entered with a non-empty queue.\<close>

definition execute_front :: "'h AllocatorBackend \<Rightarrow> 'h OracleReplayer \<Rightarrow> 'h OracleReplayer" where
  "execute_front be s =
     (let free_event = hd (pending_frees s) in
      case live_objects s (object_id free_event) of
        None \<Rightarrow> s\<lparr>pending_frees := tl (pending_frees s)\<rparr>
      | Some obj \<Rightarrow>
          let lifetime = timestamp free_event - alloc_time obj;
              s1 = s\<lparr>heap := do_free be (address obj) (heap s)\<rparr>;
              s2 = s1\<lparr>stats := record_free (obj_size obj) lifetime (stats s1)\<rparr>;
              s3 = s2\<lparr>live_objects := (live_objects s2)(object_id free_event := None)\<rparr>
          in s3\<lparr>pending_frees := tl (pending_frees s3)\<rparr>)"

lemma execute_front_pending:
  "pending_frees (execute_front be s) = tl (pending_frees s)"
  by (simp add: execute_front_def Let_def split: option.split)

function execute_pending_frees ::
  "'h AllocatorBackend \<Rightarrow> size_t \<Rightarrow> 'h OracleReplayer \<Rightarrow> 'h OracleReplayer" where
  "execute_pending_frees be next_alloc_size s =
     (if pending_frees s \<noteq> [] then execute_pending_frees be next_alloc_size (execute_front be s)
      else s)"
  by pat_completeness auto
termination
  by (relation "measure (\<lambda>(be, n, s). length (pending_frees s))")
     (auto simp: execute_front_pending)

declare execute_pending_frees.simps [simp del]

definition process_allocation ::
  "'h AllocatorBackend \<Rightarrow> Event \<Rightarrow> 'h OracleReplayer \<Rightarrow> 'h OracleReplayer" where
  "process_allocation be event s =
     (let s1 = (if pending_frees s \<noteq> [] then execute_pending_frees be (ev_size event) s else s);
          (p, h) = do_malloc be (ev_size event) (heap s1);
          s2 = s1\<lparr>heap := h\<rparr>
      in if p = 0 then s2
         else let obj = \<lparr>address = p, obj_size = ev_size event, alloc_time = timestamp event,
                          obj_site_id = site_id event\<rparr>;
                  s3 = s2\<lparr>live_objects := (live_objects s2)(object_id event \<mapsto> obj)\<rparr>
              in s3\<lparr>stats := record_allocation (ev_size event) (site_id event) (stats s3)\<rparr>)"

definition process_free :: "Event \<Rightarrow> 'h OracleReplayer \<Rightarrow> 'h OracleReplayer" where
  "process_free event s = s\<lparr>pending_frees := pending_frees s @ [event]\<rparr>"

text \<open>The body of the \<open>for\<close> loop of \<open>replay\<close>, and the loop over the event vector.\<close>

definition replay_event :: "'h AllocatorBackend \<Rightarrow> 'h OracleReplayer \<Rightarrow> Event \<Rightarrow> 'h OracleReplayer" where
  "replay_event be s event =
     (if is_alloc event then process_allocation be event s
      else if is_free event then process_free event s
      else s)"

definition replay_loop :: "'h AllocatorBackend \<Rightarrow> Event list \<Rightarrow> 'h OracleReplayer \<Rightarrow> 'h OracleReplayer" where
  "replay_loop be events s = foldl (replay_event be) s events"

definition replay :: "'h AllocatorBackend \<Rightarrow> Event list \<Rightarrow> 'h OracleReplayer \<Rightarrow> 'h OracleReplayer" where
  "replay be events s =
     (if events = [] then s
      else let s1 = replay_loop be events s
           in if pending_frees s1 \<noteq> [] then execute_pending_frees be 0 s1 else s1)"

text \<open>
  The effect of one queued free on the table, the statistics and the heap, without the
  queue: what \<open>execute_front\<close> does to the front event besides popping it. Replaying a
  trace with every free executed at once, in trace order, is \<open>replay_immediate\<close>; the
  oracle protocol is compared with it below.
\<close>

definition execute_free :: "'h AllocatorBackend \<Rightarrow> 'h OracleReplayer \<Rightarrow> Event \<Rightarrow> 'h OracleReplayer" where
  "execute_free be s free_event =
     (case live_objects s (object_id free_event) of
        None \<Rightarrow> s
      | Some obj \<Rightarrow>
          let lifetime = timestamp free_event - alloc_time obj;
              s1 = s\<lparr>heap := do_free be (address obj) (heap s)\<rparr>;
              s2 = s1\<lparr>stats := record_free (obj_size obj) lifetime (stats s1)\<rparr>
          in s2\<lparr>live_objects := (live_objects s2)(object_id free_event := None)\<rparr>)"

definition drain_in_order :: "'h AllocatorBackend \<Rightarrow> 'h OracleReplayer \<Rightarrow> 'h OracleReplayer" where
  "drain_in_order be s = foldl (execute_free be) (s\<lparr>pending_frees := []\<rparr>) (pending_frees s)"

definition replay_immediate :: "'h AllocatorBackend \<Rightarrow> Event list \<Rightarrow> 'h OracleReplayer \<Rightarrow> 'h OracleReplayer" where
  "replay_immediate be events s =
     foldl (\<lambda>s event. if is_alloc event then process_allocation be event s
                       else if is_free event then execute_free be s event
                       else s) s events"

subsection \<open>Parsing and loading the oracle CSV\<close>

text \<open>
  \<open>std::stoull\<close> and \<open>std::stoul\<close> call \<open>strtoull\<close>/\<open>strtoul\<close> in base 10: leading
  white space is skipped, one sign is accepted, then the longest run of decimal digits is
  read and whatever follows is ignored. With no digit they throw
  \<open>std::invalid_argument\<close>; with a magnitude beyond 64 bits they throw
  \<open>std::out_of_range\<close>; a minus sign negates the value in unsigned arithmetic.
  On LP64 \<open>unsigned long\<close> is as wide as \<open>unsigned long long\<close>, so \<open>stoul\<close> reads the same
  value and the assignment to a \<open>uint32_t\<close> field truncates it.
\<close>

datatype exception = invalid_argument | out_of_range

definition isspace :: "char \<Rightarrow> bool" where
  "isspace c = (c \<in> set [CHR '' '', CHR 0x09, CHR 0x0A, CHR 0x0B, CHR 0x0C, CHR 0x0D])"

definition isdigit :: "char \<Rightarrow> bool" where
  "isdigit c = (c \<in> set ''0123456789'')"

definition digit_value :: "char \<Rightarrow> nat" where
  "digit_value c = of_char c - 48"

definition decimal_value :: "string \<Rightarrow> nat" where
  "decimal_value ds = foldl (\<lambda>acc c. 10 * acc + digit_value c) 0 ds"

definition stoull :: "string \<Rightarrow> exception + 64 word" where
  "stoull str =
     (let s1 = dropWhile isspace str;
          (negative, s2) =
             (case s1 of
                [] \<Rightarrow> (False, s1)
              | c # r \<Rightarrow> if c = CHR ''-'' then (True, r)
                         else if c = CHR ''+'' then (False, r) else (False, s1));
          digits = takeWhile isdigit s2
      in if digits = [] then Inl invalid_argument
         else if 2 ^ 64 \<le> decimal_value digits then Inl out_of_range
         else Inr (if negative then - word_of_nat (decimal_value digits)
                   else word_of_nat (decimal_value digits)))"

definition stoul :: "string \<Rightarrow> exception + 64 word" where
  "stoul str = stoull str"

text \<open>
  \<open>std::getline(iss, field, ',')\<close> on the rest of the line: it fails when nothing is left
  to read, and otherwise yields the characters before the next comma and consumes that
  comma.
\<close>

definition getline_comma :: "string \<Rightarrow> (string \<times> string) option" where
  "getline_comma rest =
     (if rest = [] then None
      else Some (takeWhile (\<lambda>c. c \<noteq> CHR '','') rest,
                 drop 1 (dropWhile (\<lambda>c. c \<noteq> CHR '','') rest)))"

text \<open>
  \<open>parse_event\<close>: \<open>Inr (Some e)\<close> is \<open>true\<close> with the event filled in, \<open>Inr None\<close> is
  \<open>false\<close>, and \<open>Inl ex\<close> is the exception leaving the function: nothing in
  \<open>parse_event\<close>, \<open>load_oracle\<close> or \<open>main\<close> catches it, so the process is terminated.
  \<open>next_field\<close> is one \<open>if (!std::getline(iss, field, ',')) return false;\<close> and
  \<open>converted\<close> one conversion that may throw, each followed by the rest of the function.
\<close>

definition next_field ::
  "string \<Rightarrow> (string \<Rightarrow> string \<Rightarrow> exception + Event option) \<Rightarrow> exception + Event option" where
  "next_field rest continue =
     (case getline_comma rest of None \<Rightarrow> Inr None | Some (field, rest') \<Rightarrow> continue field rest')"

definition converted ::
  "exception + 64 word \<Rightarrow> (64 word \<Rightarrow> exception + Event option) \<Rightarrow> exception + Event option" where
  "converted r continue = (case r of Inl ex \<Rightarrow> Inl ex | Inr v \<Rightarrow> continue v)"

definition parse_event :: "string \<Rightarrow> exception + Event option" where
  "parse_event line =
     next_field line (\<lambda>f1 r1. converted (stoull f1) (\<lambda>ts.
     next_field r1 (\<lambda>f2 r2.
     next_field r2 (\<lambda>f3 r3. converted (stoull f3) (\<lambda>oid.
     next_field r3 (\<lambda>f4 r4. converted (stoull f4) (\<lambda>sz.
     next_field r4 (\<lambda>f5 r5. converted (stoul f5) (\<lambda>site.
     next_field r5 (\<lambda>f6 r6. converted (stoull f6) (\<lambda>thread.
     next_field r6 (\<lambda>f7 r7. converted (stoul f7) (\<lambda>ty.
       Inr (Some \<lparr>timestamp = ts, event_type = f2, object_id = oid, ev_size = sz,
                  site_id = ucast site, thread_id = thread, type_id = ucast ty\<rparr>))))))))))))))"

text \<open>The \<open>while (std::getline(file, line))\<close> loop of \<open>load_oracle\<close> over the lines of the file.\<close>

fun read_lines :: "bool \<Rightarrow> string list \<Rightarrow> Event list \<Rightarrow> exception + Event list" where
  "read_lines header_skipped [] events = Inr events"
| "read_lines header_skipped (line # rest) events =
     (if \<not> header_skipped then read_lines True rest events
      else if line = [] then read_lines header_skipped rest events
      else case parse_event line of
             Inl ex \<Rightarrow> Inl ex
           | Inr None \<Rightarrow> read_lines header_skipped rest events
           | Inr (Some event) \<Rightarrow> read_lines header_skipped rest (events @ [event]))"

text \<open>
  \<open>std::sort\<close> is library code. The C++ standard promises of it that the range is
  permuted and that afterwards no later element compares less than an earlier one; the
  order of elements that compare equivalent is unspecified. \<open>load_oracle\<close> takes the
  sort as a parameter, and \<open>std_sort_contract\<close> is that promise for the comparator
  \<open>a.timestamp < b.timestamp\<close>.
\<close>

definition std_sort_contract :: "(Event list \<Rightarrow> Event list) \<Rightarrow> bool" where
  "std_sort_contract srt =
     (\<forall>xs. mset (srt xs) = mset xs \<and>
           sorted_wrt (\<lambda>a b. \<not> timestamp b < timestamp a) (srt xs))"

text \<open>
  \<open>load_oracle\<close>: the file is \<open>None\<close> when it cannot be opened, and its lines otherwise.
  The result is the returned flag and \<open>events_\<close>.
\<close>

definition load_oracle ::
  "(Event list \<Rightarrow> Event list) \<Rightarrow> string list option \<Rightarrow> exception + (bool \<times> Event list)" where
  "load_oracle std_sort file =
     (case file of
        None \<Rightarrow> Inr (False, [])
      | Some lines \<Rightarrow>
          (case read_lines False lines [] of
             Inl ex \<Rightarrow> Inl ex
           | Inr events \<Rightarrow> let events' = std_sort events in Inr (0 < length events', events')))"

text \<open>
  A sort that keeps the contract: the insertion sort by timestamp of the HOL library.
\<close>

definition sort_by_timestamp :: "Event list \<Rightarrow> Event list" where
  "sort_by_timestamp xs = sort_key timestamp xs"

subsection \<open>std::sort as libstdc++ implements it\<close>

text \<open>
  \<open>std::sort\<close> is not code of the repository: it comes from the C++ standard library the
  program is built with. The definitions of this subsection follow the implementation
  of GCC's libstdc++ (\<open>bits/stl_algo.h\<close>, \<open>bits/stl_heap.h\<close>), function by function and
  under its names: an introsort, that is a quicksort with a median-of-three pivot that
  stops at ranges of 16 elements and falls back to heapsort when its depth limit of
  \<open>2 * lg n\<close> is used up, followed by one insertion sort over the whole range. The
  vector is a list and an iterator is an offset from \<open>begin()\<close>. The loops named
  \<open>unguarded\<close> test no bound: where such a loop would read in front of the first element
  or behind the last one of the vector, which C++ leaves undefined, the result is \<open>None\<close>.
  \<open>comp_timestamp\<close> is the comparator that \<open>load_oracle\<close> passes.
\<close>

definition comp_timestamp :: "Event \<Rightarrow> Event \<Rightarrow> bool" where
  "comp_timestamp a b = (timestamp a < timestamp b)"

definition iter_swap :: "nat \<Rightarrow> nat \<Rightarrow> Event list \<Rightarrow> Event list" where
  "iter_swap i j a = a[i := a ! j, j := a ! i]"

text \<open>
  \<open>__unguarded_linear_insert\<close> moves the element at \<open>lst\<close> down past every element that
  compares greater; \<open>__insertion_sort\<close> moves an element smaller than the first one to
  the front with \<open>move_backward\<close> and inserts any other one unguarded;
  \<open>__final_insertion_sort\<close> sorts the first 16 elements that way and inserts the others
  unguarded.
\<close>

fun unguarded_linear_insert_loop :: "Event \<Rightarrow> nat \<Rightarrow> Event list \<Rightarrow> Event list option" where
  "unguarded_linear_insert_loop val 0 a = None"
| "unguarded_linear_insert_loop val (Suc nxt) a =
     (if comp_timestamp val (a ! nxt)
      then unguarded_linear_insert_loop val nxt (a[Suc nxt := a ! nxt])
      else Some (a[Suc nxt := val]))"

definition unguarded_linear_insert :: "nat \<Rightarrow> Event list \<Rightarrow> Event list option" where
  "unguarded_linear_insert lst a = unguarded_linear_insert_loop (a ! lst) lst a"

fun for_each :: "nat list \<Rightarrow> (nat \<Rightarrow> Event list \<Rightarrow> Event list option) \<Rightarrow> Event list \<Rightarrow> Event list option" where
  "for_each [] body a = Some a"
| "for_each (i # is) body a = (case body i a of None \<Rightarrow> None | Some a' \<Rightarrow> for_each is body a')"

definition move_backward :: "nat \<Rightarrow> nat \<Rightarrow> Event list \<Rightarrow> Event list" where
  "move_backward first i a = take (Suc first) a @ take (i - first) (drop first a) @ drop (Suc i) a"

definition insertion_sort_step :: "nat \<Rightarrow> nat \<Rightarrow> Event list \<Rightarrow> Event list option" where
  "insertion_sort_step first i a =
     (if comp_timestamp (a ! i) (a ! first)
      then Some ((move_backward first i a)[first := a ! i])
      else unguarded_linear_insert i a)"

definition insertion_sort :: "nat \<Rightarrow> nat \<Rightarrow> Event list \<Rightarrow> Event list option" where
  "insertion_sort first lst a =
     (if first = lst then Some a else for_each [Suc first ..< lst] (insertion_sort_step first) a)"

definition unguarded_insertion_sort :: "nat \<Rightarrow> nat \<Rightarrow> Event list \<Rightarrow> Event list option" where
  "unguarded_insertion_sort first lst a = for_each [first ..< lst] unguarded_linear_insert a"

definition S_threshold :: nat where
  "S_threshold = 16"

definition final_insertion_sort :: "nat \<Rightarrow> nat \<Rightarrow> Event list \<Rightarrow> Event list option" where
  "final_insertion_sort first lst a =
     (if lst - first > S_threshold
      then (case insertion_sort first (first + S_threshold) a of
              None \<Rightarrow> None
            | Some a' \<Rightarrow> unguarded_insertion_sort (first + S_threshold) lst a')
      else insertion_sort first lst a)"

text \<open>
  \<open>__move_median_to_first\<close> swaps the median of three elements into \<open>result\<close>;
  \<open>__unguarded_partition\<close> runs two cursors towards each other, swapping the elements
  they stop at, until they cross.
\<close>

definition move_median_to_first :: "nat \<Rightarrow> nat \<Rightarrow> nat \<Rightarrow> nat \<Rightarrow> Event list \<Rightarrow> Event list" where
  "move_median_to_first result ia ib ic a =
     (if comp_timestamp (a ! ia) (a ! ib)
      then (if comp_timestamp (a ! ib) (a ! ic) then iter_swap result ib a
            else if comp_timestamp (a ! ia) (a ! ic) then iter_swap result ic a
            else iter_swap result ia a)
      else if comp_timestamp (a ! ia) (a ! ic) then iter_swap result ia a
      else if comp_timestamp (a ! ib) (a ! ic) then iter_swap result ic a
      else iter_swap result ib a)"

function scan_up :: "nat \<Rightarrow> nat \<Rightarrow> Event list \<Rightarrow> nat option" where
  "scan_up first pivot a =
     (if first < length a
      then (if comp_timestamp (a ! first) (a ! pivot) then scan_up (Suc first) pivot a
            else Some first)
      else None)"
  by pat_completeness auto
termination by (relation "measure (\<lambda>(first, pivot, a). length a - first)") auto

fun scan_down :: "nat \<Rightarrow> nat \<Rightarrow> Event list \<Rightarrow> nat option" where
  "scan_down 0 pivot a = (if comp_timestamp (a ! pivot) (a ! 0) then None else Some 0)"
| "scan_down (Suc l) pivot a =
     (if comp_timestamp (a ! pivot) (a ! Suc l) then scan_down l pivot a else Some (Suc l))"

lemma scan_down_le: "scan_down l pivot a = Some l' \<Longrightarrow> l' \<le> l"
  by (induction l) (auto split: if_splits)

function unguarded_partition ::
  "nat \<Rightarrow> nat \<Rightarrow> nat \<Rightarrow> Event list \<Rightarrow> (nat \<times> Event list) option" where
  "unguarded_partition first lst pivot a =
     (case scan_up first pivot a of
        None \<Rightarrow> None
      | Some f \<Rightarrow>
          (case lst of
             0 \<Rightarrow> None
           | Suc l0 \<Rightarrow>
               (case scan_down l0 pivot a of
                  None \<Rightarrow> None
                | Some l \<Rightarrow>
                    if \<not> f < l then Some (f, a)
                    else unguarded_partition (Suc f) l pivot (iter_swap f l a))))"
  by pat_completeness auto
termination
  by (relation "measure (\<lambda>(first, lst, pivot, a). lst)") (auto dest: scan_down_le)

definition unguarded_partition_pivot :: "nat \<Rightarrow> nat \<Rightarrow> Event list \<Rightarrow> (nat \<times> Event list) option" where
  "unguarded_partition_pivot first lst a =
     (let mid = first + (lst - first) div 2
      in unguarded_partition (first + 1) lst first
           (move_median_to_first first (first + 1) mid (lst - 1) a))"

text \<open>
  The heap functions work on indices relative to \<open>first\<close>. \<open>__adjust_heap\<close> moves the hole
  down to a leaf, always to the child that does not compare less, and then pushes the
  value up from there with \<open>__push_heap\<close>. \<open>__partial_sort\<close> is \<open>__heap_select\<close> followed by
  \<open>__sort_heap\<close>.
\<close>

function push_heap :: "nat \<Rightarrow> nat \<Rightarrow> nat \<Rightarrow> Event \<Rightarrow> Event list \<Rightarrow> Event list" where
  "push_heap first holeIndex topIndex val a =
     (let parent = (holeIndex - 1) div 2
      in if holeIndex > topIndex \<and> comp_timestamp (a ! (first + parent)) val
         then push_heap first parent topIndex val (a[first + holeIndex := a ! (first + parent)])
         else a[first + holeIndex := val])"
  by pat_completeness auto
termination
  by (relation "measure (\<lambda>(first, holeIndex, topIndex, val, a). holeIndex)") auto

function adjust_heap_loop :: "nat \<Rightarrow> nat \<Rightarrow> nat \<Rightarrow> nat \<Rightarrow> Event list \<Rightarrow> nat \<times> nat \<times> Event list" where
  "adjust_heap_loop first holeIndex secondChild len a =
     (if secondChild < (len - 1) div 2
      then let sc = 2 * (secondChild + 1);
               sc' = (if comp_timestamp (a ! (first + sc)) (a ! (first + (sc - 1))) then sc - 1 else sc)
           in adjust_heap_loop first sc' sc' len (a[first + holeIndex := a ! (first + sc')])
      else (holeIndex, secondChild, a))"
  by pat_completeness auto
termination
  by (relation "measure (\<lambda>(first, holeIndex, secondChild, len, a). len - secondChild)") auto

definition adjust_heap :: "nat \<Rightarrow> nat \<Rightarrow> nat \<Rightarrow> Event \<Rightarrow> Event list \<Rightarrow> Event list" where
  "adjust_heap first holeIndex len val a =
     (case adjust_heap_loop first holeIndex holeIndex len a of
        (hole, secondChild, a1) \<Rightarrow>
          if even len \<and> secondChild = (len - 2) div 2
          then let sc = 2 * (secondChild + 1)
               in push_heap first (sc - 1) holeIndex val (a1[first + hole := a1 ! (first + (sc - 1))])
          else push_heap first hole holeIndex val a1)"

fun make_heap_loop :: "nat \<Rightarrow> nat \<Rightarrow> nat \<Rightarrow> Event list \<Rightarrow> Event list" where
  "make_heap_loop first len 0 a = adjust_heap first 0 len (a ! first) a"
| "make_heap_loop first len (Suc parent) a =
     make_heap_loop first len parent
       (adjust_heap first (Suc parent) len (a ! (first + Suc parent)) a)"

definition make_heap :: "nat \<Rightarrow> nat \<Rightarrow> Event list \<Rightarrow> Event list" where
  "make_heap first lst a =
     (if lst - first < 2 then a
      else make_heap_loop first (lst - first) ((lst - first - 2) div 2) a)"

definition pop_heap :: "nat \<Rightarrow> nat \<Rightarrow> nat \<Rightarrow> Event list \<Rightarrow> Event list" where
  "pop_heap first lst result a =
     adjust_heap first 0 (lst - first) (a ! result) (a[result := a ! first])"

function sort_heap :: "nat \<Rightarrow> nat \<Rightarrow> Event list \<Rightarrow> Event list" where
  "sort_heap first lst a =
     (if lst - first > 1 then sort_heap first (lst - 1) (pop_heap first (lst - 1) (lst - 1) a)
      else a)"
  by pat_completeness auto
termination
  by (relation "measure (\<lambda>(first, lst, a). lst - first)") auto

definition heap_select :: "nat \<Rightarrow> nat \<Rightarrow> nat \<Rightarrow> Event list \<Rightarrow> Event list" where
  "heap_select first middle lst a =
     foldl (\<lambda>a i. if comp_timestamp (a ! i) (a ! first) then pop_heap first middle i a else a)
       (make_heap first middle a) [middle ..< lst]"

definition partial_sort :: "nat \<Rightarrow> nat \<Rightarrow> nat \<Rightarrow> Event list \<Rightarrow> Event list" where
  "partial_sort first middle lst a = sort_heap first middle (heap_select first middle lst a)"

text \<open>
  \<open>__introsort_loop\<close>: the \<open>while\<close> loop continues on the left part after the recursive
  call on the right part, each with the decremented depth limit. \<open>std::__lg\<close> is the
  binary logarithm rounded down, and \<open>stl_sort\<close> is \<open>std::__sort\<close>, which \<open>std::sort\<close> calls.
\<close>

fun introsort_loop :: "nat \<Rightarrow> nat \<Rightarrow> nat \<Rightarrow> Event list \<Rightarrow> Event list option" where
  "introsort_loop first lst depth_limit a =
     (if lst - first > S_threshold
      then (case depth_limit of
              0 \<Rightarrow> Some (partial_sort first lst lst a)
            | Suc d \<Rightarrow>
                (case unguarded_partition_pivot first lst a of
                   None \<Rightarrow> None
                 | Some (ct, a1) \<Rightarrow>
                     (case introsort_loop ct lst d a1 of
                        None \<Rightarrow> None
                      | Some a2 \<Rightarrow> introsort_loop first ct d a2)))
      else Some a)"

fun lg :: "nat \<Rightarrow> nat" where
  "lg n = (if n < 2 then 0 else Suc (lg (n div 2)))"

definition stl_sort :: "Event list \<Rightarrow> Event list option" where
  "stl_sort a =
     (if a = [] then Some a
      else case introsort_loop 0 (length a) (lg (length a) * 2) a of
             None \<Rightarrow> None
           | Some a1 \<Rightarrow> final_insertion_sort 0 (length a) a1)"

section \<open>The C replayer (TraceReplayer.c)\<close>

text \<open>
  The chained hash table: each bucket is the list of its tracking structs, the head of
  the chain first. \<open>node\<close> is the address of the struct itself, which \<open>insert_allocation\<close>
  obtains from \<open>malloc\<close> and \<open>remove_allocation\<close> gives back; the \<open>next\<close> pointer is the
  order of the list. \<open>c_heap\<close> is the heap of the process, threaded through \<open>malloc\<close>
  and \<open>free\<close>.
\<close>

record Allocation =
  node :: ptr
  a_object_id :: "32 word"
  a_ptr :: ptr
  a_size :: size_t

record 'h AllocatorStats =
  table :: "nat \<Rightarrow> Allocation list"
  c_total_allocations :: size_t
  c_total_frees :: size_t
  total_bytes_allocated :: size_t
  total_bytes_freed :: size_t
  current_bytes :: size_t
  peak_bytes :: size_t
  c_live_objects :: size_t
  failed_allocations :: size_t
  failed_frees :: size_t
  c_heap :: 'h

definition HASH_SIZE :: nat where
  "HASH_SIZE = 65536"

definition sizeof_Allocation :: size_t where
  "sizeof_Allocation = 32"

definition hash :: "32 word \<Rightarrow> nat" where
  "hash oid = unat oid mod HASH_SIZE"

definition init_stats :: "'h \<Rightarrow> 'h AllocatorStats" where
  "init_stats h =
     \<lparr>table = (\<lambda>idx. []), c_total_allocations = 0, c_total_frees = 0,
      total_bytes_allocated = 0, total_bytes_freed = 0, current_bytes = 0, peak_bytes = 0,
      c_live_objects = 0, failed_allocations = 0, failed_frees = 0, c_heap = h\<rparr>"

definition c_free :: "'h AllocatorBackend \<Rightarrow> ptr \<Rightarrow> 'h \<Rightarrow> 'h" where
  "c_free be p h = (if p = 0 then h else backend_deallocate be p h)"

definition find_allocation :: "'h AllocatorStats \<Rightarrow> 32 word \<Rightarrow> Allocation option" where
  "find_allocation st oid =
     find (\<lambda>cur. a_object_id cur = oid) (table st (hash oid))"

definition insert_allocation ::
  "'h AllocatorBackend \<Rightarrow> 32 word \<Rightarrow> ptr \<Rightarrow> size_t \<Rightarrow> 'h AllocatorStats \<Rightarrow> 'h AllocatorStats" where
  "insert_allocation be oid p sz st =
     (let idx = hash oid;
          (alloc, h) = backend_allocate be sizeof_Allocation (c_heap st);
          st1 = st\<lparr>c_heap := h\<rparr>
      in if alloc = 0 then st1
         else st1\<lparr>table := (table st1)
                  (idx := \<lparr>node = alloc, a_object_id = oid, a_ptr = p, a_size = sz\<rparr>
                          # table st1 idx)\<rparr>)"

fun unlink :: "32 word \<Rightarrow> Allocation list \<Rightarrow> Allocation list" where
  "unlink oid [] = []"
| "unlink oid (cur # rest) =
     (if a_object_id cur = oid then rest else cur # unlink oid rest)"

definition remove_allocation ::
  "'h AllocatorBackend \<Rightarrow> 32 word \<Rightarrow> 'h AllocatorStats \<Rightarrow> 'h AllocatorStats" where
  "remove_allocation be oid st =
     (let idx = hash oid in
      case find (\<lambda>cur. a_object_id cur = oid) (table st idx) of
        None \<Rightarrow> st
      | Some cur \<Rightarrow>
          st\<lparr>table := (table st)(idx := unlink oid (table st idx)),
                c_heap := c_free be (node cur) (c_heap st)\<rparr>)"

text \<open>
  \<open>handle_alloc\<close>. \<open>touch_memory\<close> writes into the new region and \<open>read_random_objects\<close>
  only reads from live regions; neither changes a field of the statistics.
\<close>

definition handle_alloc ::
  "'h AllocatorBackend \<Rightarrow> 32 word \<Rightarrow> size_t \<Rightarrow> 'h AllocatorStats \<Rightarrow> 'h AllocatorStats" where
  "handle_alloc be oid sz st =
     (let (p, h) = backend_allocate be sz (c_heap st);
          st1 = st\<lparr>c_heap := h\<rparr>
      in if p = 0 then st1\<lparr>failed_allocations := failed_allocations st1 + 1\<rparr>
         else let st2 = insert_allocation be oid p sz st1;
                  st3 = st2\<lparr>c_total_allocations := c_total_allocations st2 + 1,
                                  total_bytes_allocated := total_bytes_allocated st2 + sz,
                                  current_bytes := current_bytes st2 + sz,
                                  c_live_objects := c_live_objects st2 + 1\<rparr>
              in if peak_bytes st3 < current_bytes st3
                 then st3\<lparr>peak_bytes := current_bytes st3\<rparr> else st3)"

definition handle_free ::
  "'h AllocatorBackend \<Rightarrow> 32 word \<Rightarrow> 'h AllocatorStats \<Rightarrow> 'h AllocatorStats" where
  "handle_free be oid st =
     (case find_allocation st oid of
        None \<Rightarrow> st\<lparr>failed_frees := failed_frees st + 1\<rparr>
      | Some alloc \<Rightarrow>
          let st1 = st\<lparr>c_heap := c_free be (a_ptr alloc) (c_heap st)\<rparr>;
              st2 = st1\<lparr>c_total_frees := c_total_frees st1 + 1,
                              total_bytes_freed := total_bytes_freed st1 + a_size alloc,
                              current_bytes := current_bytes st1 - a_size alloc,
                              c_live_objects := c_live_objects st1 - 1\<rparr>
          in remove_allocation be oid st2)"

subsection \<open>Parsing a CSV line\<close>

text \<open>
  \<open>strstr\<close> as a test: whether the needle occurs in the line. \<open>strtok\<close> with the
  delimiter set \<open>","\<close>: it skips leading commas, fails when nothing is left, and
  otherwise yields the characters up to the next comma and resumes after it. \<open>atoi\<close>
  and \<open>atol\<close> read like \<open>strtol\<close> in base 10, which skips white space, takes a sign and
  the longest run of digits, and yields 0 when there is no digit; beyond the range of
  \<open>long\<close> glibc's \<open>strtol\<close> saturates, and the conversion to \<open>int\<close> keeps the low 32
  bits. \<open>next_token\<close> is one \<open>token = strtok(...); if (!token) return;\<close> followed by
  the rest of the function; \<open>strncpy\<close> keeps at most 31 characters of the event type.
\<close>

fun strstr :: "string \<Rightarrow> string \<Rightarrow> bool" where
  "strstr [] needle = (needle = [])"
| "strstr (c # cs) needle = (prefix needle (c # cs) \<or> strstr cs needle)"

definition strtok :: "string \<Rightarrow> (string \<times> string) option" where
  "strtok rest =
     (let s1 = dropWhile (\<lambda>c. c = CHR '','') rest
      in if s1 = [] then None
         else Some (takeWhile (\<lambda>c. c \<noteq> CHR '','') s1,
                    drop 1 (dropWhile (\<lambda>c. c \<noteq> CHR '','') s1)))"

definition strtol :: "string \<Rightarrow> 64 word" where
  "strtol str =
     (let s1 = dropWhile isspace str;
          (negative, s2) =
             (case s1 of
                [] \<Rightarrow> (False, s1)
              | c # r \<Rightarrow> if c = CHR ''-'' then (True, r)
                         else if c = CHR ''+'' then (False, r) else (False, s1));
          v = decimal_value (takeWhile isdigit s2)
      in if negative then (if 2 ^ 63 < v then - (2 ^ 63) else - word_of_nat v)
         else (if 2 ^ 63 \<le> v then 2 ^ 63 - 1 else word_of_nat v))"

definition atoi :: "string \<Rightarrow> 32 word" where
  "atoi str = ucast (strtol str)"

definition atol :: "string \<Rightarrow> 64 word" where
  "atol str = strtol str"

definition next_token ::
  "string \<Rightarrow> 'h AllocatorStats \<Rightarrow> (string \<Rightarrow> string \<Rightarrow> 'h AllocatorStats) \<Rightarrow> 'h AllocatorStats" where
  "next_token rest st continue =
     (case strtok rest of None \<Rightarrow> st | Some (token, rest') \<Rightarrow> continue token rest')"

definition parse_csv_line :: "'h AllocatorBackend \<Rightarrow> string \<Rightarrow> 'h AllocatorStats \<Rightarrow> 'h AllocatorStats" where
  "parse_csv_line be line st =
     (if strstr line ''timestamp'' then st
      else next_token line st (\<lambda>t1 r1.
           next_token r1 st (\<lambda>t2 r2.
           next_token r2 st (\<lambda>t3 r3.
           next_token r3 st (\<lambda>t4 r4.
             let event_type = take 31 t2; oid = atoi t3; sz = atol t4
             in if event_type = ''alloc'' then handle_alloc be oid sz st
                else if event_type = ''free'' then handle_free be oid st
                else st)))))"

section \<open>The simulators of TraceReplayerEnhanced.cpp\<close>

record Statistics =
  totalAllocations :: size_t
  totalDeallocations :: size_t
  totalBytesAllocated :: size_t
  totalBytesFreed :: size_t
  peakMemoryUsage :: size_t
  currentMemoryUsage :: size_t
  gcCollections :: size_t
  totalGCTime :: size_t
  fieldUpdates :: size_t
  methodCalls :: size_t

definition Statistics_init :: Statistics where
  "Statistics_init =
     \<lparr>totalAllocations = 0, totalDeallocations = 0, totalBytesAllocated = 0,
      totalBytesFreed = 0, peakMemoryUsage = 0, currentMemoryUsage = 0, gcCollections = 0,
      totalGCTime = 0, fieldUpdates = 0, methodCalls = 0\<rparr>"

definition recordAllocation :: "size_t \<Rightarrow> Statistics \<Rightarrow> Statistics" where
  "recordAllocation sz st =
     (let st1 = st\<lparr>totalAllocations := totalAllocations st + 1,
                    totalBytesAllocated := totalBytesAllocated st + sz,
                    currentMemoryUsage := currentMemoryUsage st + sz\<rparr>
      in if peakMemoryUsage st1 < currentMemoryUsage st1
         then st1\<lparr>peakMemoryUsage := currentMemoryUsage st1\<rparr> else st1)"

definition recordDeallocation :: "size_t \<Rightarrow> Statistics \<Rightarrow> Statistics" where
  "recordDeallocation sz st =
     st\<lparr>totalDeallocations := totalDeallocations st + 1,
        totalBytesFreed := totalBytesFreed st + sz,
        currentMemoryUsage := currentMemoryUsage st - sz\<rparr>"

definition recordGC :: "size_t \<Rightarrow> Statistics \<Rightarrow> Statistics" where
  "recordGC gcTimeUs st =
     st\<lparr>gcCollections := gcCollections st + 1, totalGCTime := totalGCTime st + gcTimeUs\<rparr>"

subsection \<open>ExplicitMemoryManager\<close>

text \<open>
  The \<open>stats\<close> member of the base class and the heap behind the \<open>allocator\<close> pointer are
  fields of each manager's state. A manager's \<open>allocate\<close> returns the pointer with the
  new state.
\<close>

record 'h ExplicitMemoryManager =
  em_stats :: Statistics
  em_heap :: 'h
  em_allocations :: "32 word \<rightharpoonup> ptr"
  em_sizes :: "32 word \<rightharpoonup> size_t"

definition ExplicitMemoryManager_init :: "'h \<Rightarrow> 'h ExplicitMemoryManager" where
  "ExplicitMemoryManager_init h =
     \<lparr>em_stats = Statistics_init, em_heap = h, em_allocations = Map.empty, em_sizes = Map.empty\<rparr>"

definition explicit_allocate ::
  "'h AllocatorBackend \<Rightarrow> size_t \<Rightarrow> 32 word \<Rightarrow> bool \<Rightarrow> 'h ExplicitMemoryManager
     \<Rightarrow> ptr \<times> 'h ExplicitMemoryManager" where
  "explicit_allocate be sz objectId isArray s =
     (let (p, h) = backend_allocate be sz (em_heap s);
          s1 = s\<lparr>em_heap := h\<rparr>
      in if p = 0 then (0, s1)
         else (p, s1\<lparr>em_allocations := (em_allocations s1)(objectId \<mapsto> p),
                     em_sizes := (em_sizes s1)(objectId \<mapsto> sz),
                     em_stats := recordAllocation sz (em_stats s1)\<rparr>))"

definition explicit_deallocate ::
  "'h AllocatorBackend \<Rightarrow> 32 word \<Rightarrow> size_t \<Rightarrow> 'h ExplicitMemoryManager
     \<Rightarrow> 'h ExplicitMemoryManager" where
  "explicit_deallocate be objectId sz s =
     (case em_allocations s objectId of
        None \<Rightarrow> s
      | Some p \<Rightarrow>
          let s1 = s\<lparr>em_heap := backend_deallocate be p (em_heap s)\<rparr>;
              s2 = s1\<lparr>em_stats := recordDeallocation (map_at (em_sizes s1) objectId) (em_stats s1)\<rparr>
          in s2\<lparr>em_allocations := (em_allocations s2)(objectId := None),
                 em_sizes := (em_sizes s2)(objectId := None)\<rparr>)"

subsection \<open>GCSimulator\<close>

text \<open>
  \<open>deadObjects\<close> is a \<open>std::unordered_set\<close>: a list without repetitions, visited by the
  sweep from its head. The set fixes no visiting order, and the sweep's effect on the
  tables and the statistics is the same for every order. The duration a collection
  measures on the wall clock is an input: \<open>clock n\<close> is what collection number \<open>n\<close>
  measures.
\<close>

record 'h GCSimulator =
  gc_stats :: Statistics
  gc_heap :: 'h
  gc_allocations :: "32 word \<rightharpoonup> ptr"
  gc_sizes :: "32 word \<rightharpoonup> size_t"
  deadObjects :: "32 word list"
  gcThreshold :: size_t
  allocationsSinceLastGC :: size_t
  allocationThreshold :: size_t

definition GCSimulator_init :: "'h \<Rightarrow> size_t \<Rightarrow> size_t \<Rightarrow> 'h GCSimulator" where
  "GCSimulator_init h threshold allocThreshold =
     \<lparr>gc_stats = Statistics_init, gc_heap = h, gc_allocations = Map.empty,
      gc_sizes = Map.empty, deadObjects = [], gcThreshold = threshold,
      allocationsSinceLastGC = 0, allocationThreshold = allocThreshold\<rparr>"

definition default_gcThreshold :: size_t where
  "default_gcThreshold = 10 * 1024 * 1024"

definition default_allocationThreshold :: size_t where
  "default_allocationThreshold = 1000"

text \<open>The body of the sweep loop of \<open>performGC\<close> for one dead id.\<close>

definition sweep_one :: "'h AllocatorBackend \<Rightarrow> 'h GCSimulator \<Rightarrow> 32 word \<Rightarrow> 'h GCSimulator" where
  "sweep_one be s deadId =
     (case gc_allocations s deadId of
        None \<Rightarrow> s
      | Some p \<Rightarrow>
          let sz = map_at (gc_sizes s) deadId;
              s1 = s\<lparr>gc_heap := backend_deallocate be p (gc_heap s)\<rparr>;
              s2 = s1\<lparr>gc_stats := recordDeallocation sz (gc_stats s1)\<rparr>
          in s2\<lparr>gc_allocations := (gc_allocations s2)(deadId := None),
                 gc_sizes := (gc_sizes s2)(deadId := None)\<rparr>)"

definition performGC ::
  "'h AllocatorBackend \<Rightarrow> (size_t \<Rightarrow> size_t) \<Rightarrow> 'h GCSimulator \<Rightarrow> 'h GCSimulator" where
  "performGC be clock s =
     (let s1 = foldl (sweep_one be) s (deadObjects s);
          s2 = s1\<lparr>deadObjects := [], allocationsSinceLastGC := 0\<rparr>
      in s2\<lparr>gc_stats := recordGC (clock (gcCollections (gc_stats s2))) (gc_stats s2)\<rparr>)"

definition gc_allocate ::
  "'h AllocatorBackend \<Rightarrow> (size_t \<Rightarrow> size_t) \<Rightarrow> size_t \<Rightarrow> 32 word \<Rightarrow> bool \<Rightarrow> 'h GCSimulator
     \<Rightarrow> ptr \<times> 'h GCSimulator" where
  "gc_allocate be clock sz objectId isArray s =
     (let (p, h) = backend_allocate be sz (gc_heap s);
          s1 = s\<lparr>gc_heap := h\<rparr>;
          (p, s2) = (if p = 0
                     then let sg = performGC be clock s1;
                              (p', h') = backend_allocate be sz (gc_heap sg)
                          in (p', sg\<lparr>gc_heap := h'\<rparr>)
                     else (p, s1))
      in if p = 0 then (0, s2)
         else let s3 = s2\<lparr>gc_allocations := (gc_allocations s2)(objectId \<mapsto> p),
                          gc_sizes := (gc_sizes s2)(objectId \<mapsto> sz),
                          gc_stats := recordAllocation sz (gc_stats s2)\<rparr>;
                  s4 = s3\<lparr>allocationsSinceLastGC := allocationsSinceLastGC s3 + 1\<rparr>
              in if gcThreshold s4 < currentMemoryUsage (gc_stats s4) \<or>
                    allocationThreshold s4 < allocationsSinceLastGC s4
                 then (p, performGC be clock s4) else (p, s4))"

text \<open>The tables, statistics and heap of a GC simulator, read as an explicit manager.\<close>

definition as_explicit :: "'h GCSimulator \<Rightarrow> 'h ExplicitMemoryManager" where
  "as_explicit s =
     \<lparr>em_stats = gc_stats s, em_heap = gc_heap s, em_allocations = gc_allocations s,
      em_sizes = gc_sizes s\<rparr>"

definition gc_deallocate :: "32 word \<Rightarrow> size_t \<Rightarrow> 'h GCSimulator \<Rightarrow> 'h GCSimulator" where
  "gc_deallocate objectId sz s = s\<lparr>deadObjects := List.insert objectId (deadObjects s)\<rparr>"

subsection \<open>TraceReplayer\<close>

text \<open>
  The replayer holds its own table of allocation records beside the manager's, and
  reaches the manager through the \<open>MemorySimulator\<close> interface. The handlers are given
  the fields already extracted from the record; \<open>allocTime\<close>, a wall-clock reading that
  is never read again, is not kept.
\<close>

datatype 'h MemorySimulator =
  Explicit "'h ExplicitMemoryManager"
| GC "'h GCSimulator"

definition allocate ::
  "'h AllocatorBackend \<Rightarrow> (size_t \<Rightarrow> size_t) \<Rightarrow> size_t \<Rightarrow> 32 word \<Rightarrow> bool \<Rightarrow> 'h MemorySimulator
     \<Rightarrow> ptr \<times> 'h MemorySimulator" where
  "allocate be clock sz objectId isArray mm =
     (case mm of
        Explicit s \<Rightarrow> (let (p, s') = explicit_allocate be sz objectId isArray s in (p, Explicit s'))
      | GC s \<Rightarrow> (let (p, s') = gc_allocate be clock sz objectId isArray s in (p, GC s')))"

definition deallocate ::
  "'h AllocatorBackend \<Rightarrow> 32 word \<Rightarrow> size_t \<Rightarrow> 'h MemorySimulator \<Rightarrow> 'h MemorySimulator" where
  "deallocate be objectId sz mm =
     (case mm of
        Explicit s \<Rightarrow> Explicit (explicit_deallocate be objectId sz s)
      | GC s \<Rightarrow> GC (gc_deallocate objectId sz s))"

definition getStatistics :: "'h MemorySimulator \<Rightarrow> Statistics" where
  "getStatistics mm = (case mm of Explicit s \<Rightarrow> em_stats s | GC s \<Rightarrow> gc_stats s)"

record AllocationRecord =
  rec_objectId :: "32 word"
  rec_size :: size_t
  rec_typeId :: "32 word"
  rec_siteId :: "32 word"
  rec_length :: "32 word"
  rec_threadId :: "64 word"
  rec_address :: ptr
  rec_isArray :: bool

record 'h TraceReplayer =
  liveObjects :: "32 word \<rightharpoonup> AllocationRecord"
  memoryManager :: "'h MemorySimulator"

definition handleObjectAllocation ::
  "'h AllocatorBackend \<Rightarrow> (size_t \<Rightarrow> size_t) \<Rightarrow> 32 word \<Rightarrow> size_t \<Rightarrow> 32 word \<Rightarrow> 32 word \<Rightarrow>
     32 word \<Rightarrow> 64 word \<Rightarrow> bool \<Rightarrow> 'h TraceReplayer \<Rightarrow> 'h TraceReplayer" where
  "handleObjectAllocation be clock oid sz ty site len thread is_array tr =
     (let (p, mm) = allocate be clock sz oid is_array (memoryManager tr);
          rec = \<lparr>rec_objectId = oid, rec_size = sz, rec_typeId = ty, rec_siteId = site,
                 rec_length = len, rec_threadId = thread, rec_address = p,
                 rec_isArray = is_array\<rparr>
      in tr\<lparr>memoryManager := mm, liveObjects := (liveObjects tr)(oid \<mapsto> rec)\<rparr>)"

definition handleObjectDeath ::
  "'h AllocatorBackend \<Rightarrow> 32 word \<Rightarrow> 'h TraceReplayer \<Rightarrow> 'h TraceReplayer" where
  "handleObjectDeath be oid tr =
     (case liveObjects tr oid of
        None \<Rightarrow> tr
      | Some rec \<Rightarrow>
          tr\<lparr>memoryManager := deallocate be oid (rec_size rec) (memoryManager tr),
             liveObjects := (liveObjects tr)(oid := None)\<rparr>)"

text \<open>
  A stand-in allocator for concrete evaluations: the heap is the number of requests
  served so far, request number \<open>n\<close> is answered with \<open>script n\<close>, and releases leave no
  mark. \<open>never_fails\<close> hands out the odd addresses 1, 3, 5 and so on, none of them
  null; \<open>always_fails\<close> answers null to everything; \<open>fails_once\<close> answers null to the
  first request only.
\<close>

definition scripted_backend :: "(nat \<Rightarrow> ptr) \<Rightarrow> nat AllocatorBackend" where
  "scripted_backend script =
     \<lparr>backend_allocate = (\<lambda>sz n. (script n, Suc n)), backend_deallocate = (\<lambda>p n. n)\<rparr>"

definition never_fails :: "nat AllocatorBackend" where
  "never_fails = scripted_backend (\<lambda>n. 2 * word_of_nat n + 1)"

definition always_fails :: "nat AllocatorBackend" where
  "always_fails = scripted_backend (\<lambda>n. 0)"

definition fails_once :: "nat AllocatorBackend" where
  "fails_once = scripted_backend (\<lambda>n. if n = 0 then 0 else 4096 * word_of_nat n)"

text \<open>
  A stand-in allocator whose heap is the list of the requests made so far, in order, and
  a trace that allocates object 1, frees it and allocates object 2.
\<close>

datatype backend_call = Malloc size_t | Free ptr

definition recording_backend :: "backend_call list AllocatorBackend" where
  "recording_backend =
     \<lparr>backend_allocate = (\<lambda>sz log. (2 * word_of_nat (length log) + 1, log @ [Malloc sz])),
      backend_deallocate = (\<lambda>p log. log @ [Free p])\<rparr>"

definition protocol_events :: "Event list" where
  "protocol_events =
     [\<lparr>timestamp = 1, event_type = ''alloc'', object_id = 1, ev_size = 16,
       site_id = 3, thread_id = 7, type_id = 2\<rparr>,
      \<lparr>timestamp = 5, event_type = ''free'', object_id = 1, ev_size = 0,
       site_id = 0, thread_id = 7, type_id = 0\<rparr>,
      \<lparr>timestamp = 7, event_type = ''alloc'', object_id = 2, ev_size = 32,
       site_id = 3, thread_id = 7, type_id = 2\<rparr>]"

definition gc0 :: "nat GCSimulator" where
  "gc0 = GCSimulator_init 0 default_gcThreshold default_allocationThreshold"

definition tr0 :: "nat TraceReplayer" where
  "tr0 = \<lparr>liveObjects = Map.empty, memoryManager = Explicit (ExplicitMemoryManager_init 0)\<rparr>"

text \<open>Rows of an oracle file used in the concrete evaluations, and the events they hold.\<close>

definition header_line :: string where
  "header_line = ''timestamp,event_type,object_id,size,site_id,thread_id,type_id''"

definition row1 :: Event where
  "row1 = \<lparr>timestamp = 5, event_type = ''alloc'', object_id = 1, ev_size = 16,
            site_id = 3, thread_id = 7, type_id = 2\<rparr>"

definition row2 :: Event where
  "row2 = \<lparr>timestamp = 5, event_type = ''alloc'', object_id = 2, ev_size = 16,
            site_id = 3, thread_id = 7, type_id = 2\<rparr>"

definition row3 :: Event where
  "row3 = \<lparr>timestamp = 3, event_type = ''free'', object_id = 1, ev_size = 0,
            site_id = 0, thread_id = 7, type_id = 0\<rparr>"

text \<open>A file of seventeen rows with the same timestamp, for objects 1 to 17.\<close>

definition tie_row :: "64 word \<Rightarrow> Event" where
  "tie_row k = \<lparr>timestamp = 5, event_type = ''alloc'', object_id = k, ev_size = 16,
                 site_id = 3, thread_id = 7, type_id = 2\<rparr>"

definition tie_file :: "string list" where
  "tie_file =
     [header_line,
      ''5,alloc,1,16,3,7,2'', ''5,alloc,2,16,3,7,2'', ''5,alloc,3,16,3,7,2'',
      ''5,alloc,4,16,3,7,2'', ''5,alloc,5,16,3,7,2'', ''5,alloc,6,16,3,7,2'',
      ''5,alloc,7,16,3,7,2'', ''5,alloc,8,16,3,7,2'', ''5,alloc,9,16,3,7,2'',
      ''5,alloc,10,16,3,7,2'', ''5,alloc,11,16,3,7,2'', ''5,alloc,12,16,3,7,2'',
      ''5,alloc,13,16,3,7,2'', ''5,alloc,14,16,3,7,2'', ''5,alloc,15,16,3,7,2'',
      ''5,alloc,16,16,3,7,2'', ''5,alloc,17,16,3,7,2'']"

section \<open>Accounting of live bytes\<close>

text \<open>
  The bytes a table holds: the sum, over the ids present, of the size recorded for each.
  \<open>live_bytes\<close> is that sum for the oracle replayer's live object table.
  \<open>replaced_bytes\<close> is the size recorded under an id, or 0 when the id is absent: the
  bytes that leave the table when an entry for that id is written.
\<close>

definition table_bytes :: "('k \<rightharpoonup> 'v) \<Rightarrow> ('v \<Rightarrow> size_t) \<Rightarrow> nat" where
  "table_bytes m sz = (\<Sum>k\<in>dom m. unat (sz (the (m k))))"

definition replaced_bytes :: "('k \<rightharpoonup> 'v) \<Rightarrow> ('v \<Rightarrow> size_t) \<Rightarrow> 'k \<Rightarrow> nat" where
  "replaced_bytes m sz k = (case m k of None \<Rightarrow> 0 | Some v \<Rightarrow> unat (sz v))"

definition live_bytes :: "'h OracleReplayer \<Rightarrow> nat" where
  "live_bytes s = table_bytes (live_objects s) obj_size"

text \<open>
  An Alloc event adds up in a state when the allocation performed for it, if the backend
  grants it, writes its entry over no bytes and keeps the counter within 64 bits: both
  are read at the moment of the insertion, after the queue has been drained. A trace
  adds up from a state when each of its Alloc events does, in the state the replay has
  reached before it.
\<close>

definition alloc_adds_up :: "'h AllocatorBackend \<Rightarrow> 'h OracleReplayer \<Rightarrow> Event \<Rightarrow> bool" where
  "alloc_adds_up be s e =
     (let d = drain_in_order be s
      in fst (do_malloc be (ev_size e) (heap d)) = 0 \<or>
         (replaced_bytes (live_objects d) obj_size (object_id e) = 0 \<and>
          unat (current_memory (stats d)) + unat (ev_size e) < 2 ^ 64))"

fun adds_up :: "'h AllocatorBackend \<Rightarrow> Event list \<Rightarrow> 'h OracleReplayer \<Rightarrow> bool" where
  "adds_up be [] s = True"
| "adds_up be (e # es) s =
     ((is_alloc e \<longrightarrow> alloc_adds_up be s e) \<and> adds_up be es (replay_event be s e))"

text \<open>
  The accounting invariant of the oracle replayer and of the two managers of
  TraceReplayerEnhanced.cpp: the live-bytes counter is the sum over the table and does
  not exceed the peak.
\<close>

definition accounted :: "'h OracleReplayer \<Rightarrow> bool" where
  "accounted s \<longleftrightarrow>
     finite (dom (live_objects s)) \<and>
     unat (current_memory (stats s)) = live_bytes s \<and>
     current_memory (stats s) \<le> peak_memory (stats s)"

definition em_accounted :: "'h ExplicitMemoryManager \<Rightarrow> bool" where
  "em_accounted s \<longleftrightarrow>
     finite (dom (em_sizes s)) \<and> dom (em_allocations s) = dom (em_sizes s) \<and>
     unat (currentMemoryUsage (em_stats s)) = table_bytes (em_sizes s) (\<lambda>sz. sz) \<and>
     currentMemoryUsage (em_stats s) \<le> peakMemoryUsage (em_stats s)"

definition gc_accounted :: "'h GCSimulator \<Rightarrow> bool" where
  "gc_accounted s \<longleftrightarrow>
     finite (dom (gc_sizes s)) \<and> dom (gc_allocations s) = dom (gc_sizes s) \<and>
     unat (currentMemoryUsage (gc_stats s)) = table_bytes (gc_sizes s) (\<lambda>sz. sz) \<and>
     currentMemoryUsage (gc_stats s) \<le> peakMemoryUsage (gc_stats s)"

text \<open>
  The state in which \<open>GCSimulator::allocate\<close> makes its insertion: the state it was
  called in when the first request succeeds, and the collected state when it fails.
\<close>

definition gc_before_insert ::
  "'h AllocatorBackend \<Rightarrow> (size_t \<Rightarrow> size_t) \<Rightarrow> size_t \<Rightarrow> 'h GCSimulator \<Rightarrow> 'h GCSimulator" where
  "gc_before_insert be clock sz s =
     (if fst (backend_allocate be sz (gc_heap s)) = 0
      then performGC be clock (s\<lparr>gc_heap := snd (backend_allocate be sz (gc_heap s))\<rparr>)
      else s)"

text \<open>
  A trace that allocates object 1 twice, one that allocates object 1 again after it
  has been freed, and one whose two objects hold \<open>2 ^ 64 + 1\<close> bytes together.
\<close>

definition dup_events :: "Event list" where
  "dup_events =
     [\<lparr>timestamp = 1, event_type = ''alloc'', object_id = 1, ev_size = 16,
       site_id = 3, thread_id = 7, type_id = 2\<rparr>,
      \<lparr>timestamp = 2, event_type = ''alloc'', object_id = 1, ev_size = 32,
       site_id = 3, thread_id = 7, type_id = 2\<rparr>]"

definition reuse_events :: "Event list" where
  "reuse_events =
     [\<lparr>timestamp = 1, event_type = ''alloc'', object_id = 1, ev_size = 16,
       site_id = 3, thread_id = 7, type_id = 2\<rparr>,
      \<lparr>timestamp = 2, event_type = ''free'', object_id = 1, ev_size = 0,
       site_id = 0, thread_id = 7, type_id = 0\<rparr>,
      \<lparr>timestamp = 3, event_type = ''alloc'', object_id = 1, ev_size = 32,
       site_id = 3, thread_id = 7, type_id = 2\<rparr>]"

definition wrap_events :: "Event list" where
  "wrap_events =
     [\<lparr>timestamp = 1, event_type = ''alloc'', object_id = 1, ev_size = 18446744073709551615,
       site_id = 3, thread_id = 7, type_id = 2\<rparr>,
      \<lparr>timestamp = 2, event_type = ''alloc'', object_id = 2, ev_size = 2,
       site_id = 3, thread_id = 7, type_id = 2\<rparr>]"

section \<open>The oracle protocol: the queue is drained before every allocation\<close>

lemma execute_free_pending [simp]: "pending_frees (execute_free be s f) = pending_frees s"
  by (simp add: execute_free_def Let_def split: option.split)

lemma execute_front_eq:
  "pending_frees s = f # fs \<Longrightarrow> execute_front be s = execute_free be (s\<lparr>pending_frees := fs\<rparr>) f"
  by (simp add: execute_front_def execute_free_def Let_def split: option.split)

lemma execute_free_set_pending:
  "execute_free be (s\<lparr>pending_frees := q\<rparr>) f = (execute_free be s f)\<lparr>pending_frees := q\<rparr>"
  by (simp add: execute_free_def Let_def split: option.split)

lemma foldl_execute_free_pending [simp]:
  "pending_frees (foldl (execute_free be) s fs) = pending_frees s"
  by (induction fs arbitrary: s) simp_all

lemma foldl_execute_free_set_pending:
  "foldl (execute_free be) (s\<lparr>pending_frees := q\<rparr>) fs =
   (foldl (execute_free be) s fs)\<lparr>pending_frees := q\<rparr>"
  by (induction fs arbitrary: s) (simp_all add: execute_free_set_pending)

text \<open>The \<open>while\<close> loop executes the queued frees from the front, one after the other.\<close>

lemma execute_pending_frees_drain: "execute_pending_frees be n s = drain_in_order be s"
proof (induction be n s rule: execute_pending_frees.induct)
  case (1 be n s)
  show ?case
  proof (cases "pending_frees s")
    case Nil
    then show ?thesis
      by (simp add: execute_pending_frees.simps [of be n s] drain_in_order_def)
  next
    case (Cons f fs)
    then have "execute_pending_frees be n s = drain_in_order be (execute_front be s)"
      using 1 by (simp add: execute_pending_frees.simps [of be n s])
    also have "\<dots> = drain_in_order be s"
      using Cons
      by (simp add: drain_in_order_def execute_front_eq execute_free_set_pending
          foldl_execute_free_set_pending)
    finally show ?thesis .
  qed
qed

lemma drain_pending [simp]: "pending_frees (drain_in_order be s) = []"
  by (simp add: drain_in_order_def)

lemma drain_empty: "pending_frees s = [] \<Longrightarrow> drain_in_order be s = s"
  by (simp add: drain_in_order_def)

lemma process_allocation_drain:
  "process_allocation be e s = process_allocation be e (drain_in_order be s)"
  by (simp add: process_allocation_def execute_pending_frees_drain drain_empty)

lemma process_allocation_pending: "pending_frees (process_allocation be e s) = []"
  by (simp add: process_allocation_def execute_pending_frees_drain drain_empty Let_def
      split: prod.split)

lemma drain_process_free:
  "drain_in_order be (process_free e s) = execute_free be (drain_in_order be s) e"
  by (simp add: drain_in_order_def process_free_def foldl_execute_free_set_pending
      execute_free_set_pending)

text \<open>
  Draining what the loop has queued gives the state that executing every free at once
  would have given: deferring a free never loses it and never reorders it.
\<close>

lemma drain_replay_loop:
  "drain_in_order be (replay_loop be evs s) = replay_immediate be evs (drain_in_order be s)"
proof (induction evs arbitrary: s)
  case Nil
  then show ?case by (simp add: replay_loop_def replay_immediate_def)
next
  case (Cons e evs)
  have step: "drain_in_order be (replay_event be s e) =
      (if is_alloc e then process_allocation be e (drain_in_order be s)
       else if is_free e then execute_free be (drain_in_order be s) e
       else drain_in_order be s)"
    using process_allocation_drain [of be e s]
    by (simp add: replay_event_def drain_process_free drain_empty process_allocation_pending)
  have "drain_in_order be (replay_loop be (e # evs) s) =
        drain_in_order be (replay_loop be evs (replay_event be s e))"
    by (simp add: replay_loop_def)
  also have "\<dots> = replay_immediate be evs (drain_in_order be (replay_event be s e))"
    by (rule Cons.IH)
  also have "\<dots> = replay_immediate be (e # evs) (drain_in_order be s)"
    by (simp only: step) (simp add: replay_immediate_def)
  finally show ?case .
qed

lemma replay_drain:
  "pending_frees s = [] \<Longrightarrow> replay be evs s = drain_in_order be (replay_loop be evs s)"
  by (simp add: replay_def execute_pending_frees_drain drain_empty Let_def replay_loop_def)

lemma execute_free_expand:
  "execute_free be s f =
     (case live_objects s (object_id f) of
        None \<Rightarrow> s
      | Some obj \<Rightarrow>
          s\<lparr>heap := (if address obj = 0 then heap s
                      else backend_deallocate be (address obj) (heap s)),
            stats := record_free (obj_size obj) (timestamp f - alloc_time obj) (stats s),
            live_objects := (live_objects s)(object_id f := None)\<rparr>)"
  by (simp add: execute_free_def do_free_def Let_def split: option.split)

lemma process_allocation_expand:
  "process_allocation be e s =
     (let d = foldl (execute_free be) (s\<lparr>pending_frees := []\<rparr>) (pending_frees s);
          p = fst (backend_allocate be (ev_size e) (heap d));
          d' = d\<lparr>heap := snd (backend_allocate be (ev_size e) (heap d))\<rparr>
      in if p = 0 then d'
         else d'\<lparr>live_objects := (live_objects d)(object_id e \<mapsto>
                    \<lparr>address = p, obj_size = ev_size e, alloc_time = timestamp e,
                     obj_site_id = site_id e\<rparr>),
                 stats := record_allocation (ev_size e) (site_id e) (stats d)\<rparr>)"
  by (simp add: process_allocation_def execute_pending_frees_drain drain_empty Let_def split_beta
      do_malloc_def drain_in_order_def)

lemmas protocol_simps = replay_def replay_loop_def protocol_events_def replay_event_def
  is_alloc_def is_free_def process_allocation_expand process_free_def execute_free_expand
  execute_pending_frees_drain drain_in_order_def OracleReplayer_init_def
  oracle_Statistics_init_def record_allocation_def record_free_def Let_def map_at_def
  recording_backend_def

lemma protocol_deferred:
  "pending_frees (replay_loop recording_backend (take 2 protocol_events) (OracleReplayer_init [])) =
     [protocol_events ! 1] \<and>
   live_objects (replay_loop recording_backend (take 2 protocol_events) (OracleReplayer_init [])) 1 =
     Some \<lparr>address = 1, obj_size = 16, alloc_time = 1, obj_site_id = 3\<rparr> \<and>
   heap (replay_loop recording_backend (take 2 protocol_events) (OracleReplayer_init [])) =
     [Malloc 16]"
  by (simp add: protocol_simps)

lemma protocol_final:
  "heap (replay recording_backend protocol_events (OracleReplayer_init [])) =
     [Malloc 16, Free 1, Malloc 32] \<and>
   pending_frees (replay recording_backend protocol_events (OracleReplayer_init [])) = [] \<and>
   live_objects (replay recording_backend protocol_events (OracleReplayer_init [])) 1 = None \<and>
   live_objects (replay recording_backend protocol_events (OracleReplayer_init [])) 2 =
     Some \<lparr>address = 5, obj_size = 32, alloc_time = 7, obj_site_id = 3\<rparr> \<and>
   total_allocations (stats (replay recording_backend protocol_events (OracleReplayer_init []))) = 2 \<and>
   total_frees (stats (replay recording_backend protocol_events (OracleReplayer_init []))) = 1 \<and>
   bytes_freed (stats (replay recording_backend protocol_events (OracleReplayer_init []))) = 16 \<and>
   current_memory (stats (replay recording_backend protocol_events (OracleReplayer_init []))) = 32 \<and>
   total_lifetime (stats (replay recording_backend protocol_events (OracleReplayer_init []))) = 4"
  by (simp add: protocol_simps)

lemma protocol_end_drain:
  "heap (replay recording_backend (take 2 protocol_events) (OracleReplayer_init [])) =
     [Malloc 16, Free 1] \<and>
   pending_frees (replay recording_backend (take 2 protocol_events) (OracleReplayer_init [])) = [] \<and>
   live_objects (replay recording_backend (take 2 protocol_events) (OracleReplayer_init [])) 1 = None"
  by (simp add: protocol_simps)

text \<open>
  Claim C1. In oracle mode, processing an Alloc event first executes every queued free
  in insertion order, front first, and only then performs the allocation on the drained
  state: the backend is asked for the event's size, and on a non-null answer the object
  is entered in the live table and the allocation is recorded; either way the
  pending-free queue is empty afterwards. Executing one queued free releases the
  object's region through the backend, records the free with the lifetime between the
  two timestamps and removes the entry; a free of an unknown id is discarded.
  \<open>execute_pending_frees\<close> is that in-order execution for every value of the
  next-allocation size. A replay from a fresh replayer ends with an empty queue, where
  the residue is drained with next-allocation size zero, and its final state is the one
  reached by executing every free of the trace at its own place in the trace: no queued
  free is dropped. On the trace alloc 1, free 1, alloc 2 the free is still queued and
  object 1 still live after two events; the backend then sees the release of object 1
  before the second request, and when the trace ends after two events the free is
  executed by the final drain.
\<close>

theorem C1_oracle_queue_drained:
  "pending_frees (process_allocation be e s) = [] \<and>
   process_allocation be e s =
     process_allocation be e
       (foldl (execute_free be) (s\<lparr>pending_frees := []\<rparr>) (pending_frees s)) \<and>
   execute_pending_frees be n s =
     foldl (execute_free be) (s\<lparr>pending_frees := []\<rparr>) (pending_frees s) \<and>
   replay be evs (OracleReplayer_init h) =
     execute_pending_frees be 0 (replay_loop be evs (OracleReplayer_init h)) \<and>
   pending_frees (replay be evs (OracleReplayer_init h)) = [] \<and>
   replay be evs (OracleReplayer_init h) = replay_immediate be evs (OracleReplayer_init h) \<and>
   process_allocation be e s =
     (let d = foldl (execute_free be) (s\<lparr>pending_frees := []\<rparr>) (pending_frees s);
          p = fst (backend_allocate be (ev_size e) (heap d));
          d' = d\<lparr>heap := snd (backend_allocate be (ev_size e) (heap d))\<rparr>
      in if p = 0 then d'
         else d'\<lparr>live_objects := (live_objects d)(object_id e \<mapsto>
                    \<lparr>address = p, obj_size = ev_size e, alloc_time = timestamp e,
                     obj_site_id = site_id e\<rparr>),
                 stats := record_allocation (ev_size e) (site_id e) (stats d)\<rparr>) \<and>
   execute_free be s f =
     (case live_objects s (object_id f) of
        None \<Rightarrow> s
      | Some obj \<Rightarrow>
          s\<lparr>heap := (if address obj = 0 then heap s
                      else backend_deallocate be (address obj) (heap s)),
            stats := record_free (obj_size obj) (timestamp f - alloc_time obj) (stats s),
            live_objects := (live_objects s)(object_id f := None)\<rparr>) \<and>
   process_free f s = s\<lparr>pending_frees := pending_frees s @ [f]\<rparr> \<and>
   pending_frees (replay_loop recording_backend (take 2 protocol_events) (OracleReplayer_init [])) =
     [protocol_events ! 1] \<and>
   live_objects (replay_loop recording_backend (take 2 protocol_events) (OracleReplayer_init [])) 1 =
     Some \<lparr>address = 1, obj_size = 16, alloc_time = 1, obj_site_id = 3\<rparr> \<and>
   heap (replay_loop recording_backend (take 2 protocol_events) (OracleReplayer_init [])) =
     [Malloc 16] \<and>
   heap (replay recording_backend (take 2 protocol_events) (OracleReplayer_init [])) =
     [Malloc 16, Free 1] \<and>
   live_objects (replay recording_backend (take 2 protocol_events) (OracleReplayer_init [])) 1 =
     None \<and>
   heap (replay recording_backend protocol_events (OracleReplayer_init [])) =
     [Malloc 16, Free 1, Malloc 32] \<and>
   pending_frees (replay recording_backend protocol_events (OracleReplayer_init [])) = [] \<and>
   live_objects (replay recording_backend protocol_events (OracleReplayer_init [])) 1 = None \<and>
   live_objects (replay recording_backend protocol_events (OracleReplayer_init [])) 2 =
     Some \<lparr>address = 5, obj_size = 32, alloc_time = 7, obj_site_id = 3\<rparr> \<and>
   total_allocations (stats (replay recording_backend protocol_events (OracleReplayer_init []))) = 2 \<and>
   total_frees (stats (replay recording_backend protocol_events (OracleReplayer_init []))) = 1 \<and>
   bytes_freed (stats (replay recording_backend protocol_events (OracleReplayer_init []))) = 16 \<and>
   current_memory (stats (replay recording_backend protocol_events (OracleReplayer_init []))) = 32 \<and>
   total_lifetime (stats (replay recording_backend protocol_events (OracleReplayer_init []))) = 4"
proof -
  have i: "pending_frees (OracleReplayer_init h :: 'a OracleReplayer) = []"
    by (simp add: OracleReplayer_init_def)
  have r: "replay be evs (OracleReplayer_init h) = replay_immediate be evs (OracleReplayer_init h)"
    using i by (simp add: replay_drain drain_replay_loop drain_empty)
  have p: "pending_frees (replay be evs (OracleReplayer_init h)) = []"
    using i by (simp add: replay_drain)
  have d: "replay be evs (OracleReplayer_init h) =
      execute_pending_frees be 0 (replay_loop be evs (OracleReplayer_init h))"
    using i by (simp add: replay_drain execute_pending_frees_drain)
  have general: "pending_frees (process_allocation be e s) = [] \<and>
   process_allocation be e s =
     process_allocation be e
       (foldl (execute_free be) (s\<lparr>pending_frees := []\<rparr>) (pending_frees s)) \<and>
   execute_pending_frees be n s =
     foldl (execute_free be) (s\<lparr>pending_frees := []\<rparr>) (pending_frees s) \<and>
   replay be evs (OracleReplayer_init h) =
     execute_pending_frees be 0 (replay_loop be evs (OracleReplayer_init h)) \<and>
   pending_frees (replay be evs (OracleReplayer_init h)) = [] \<and>
   replay be evs (OracleReplayer_init h) = replay_immediate be evs (OracleReplayer_init h)"
    using process_allocation_drain [of be e s] r p d
    by (simp add: process_allocation_pending execute_pending_frees_drain drain_in_order_def)
  have pf: "process_free f s = s\<lparr>pending_frees := pending_frees s @ [f]\<rparr>"
    by (simp add: process_free_def)
  from general process_allocation_expand [of be e s] execute_free_expand [of be s f] pf
    protocol_deferred protocol_end_drain protocol_final
  show ?thesis by blast
qed

section \<open>Loading the oracle file\<close>

lemmas parse_simps = parse_event_def next_field_def converted_def getline_comma_def stoull_def
  stoul_def isspace_def isdigit_def decimal_value_def digit_value_def

lemma parse_row1: "parse_event ''5,alloc,1,16,3,7,2'' = Inr (Some row1)"
  by (simp add: parse_simps row1_def)

lemma parse_row2: "parse_event ''5,alloc,2,16,3,7,2'' = Inr (Some row2)"
  by (simp add: parse_simps row2_def)

lemma parse_row3: "parse_event ''3,free,1,0,0,7,0'' = Inr (Some row3)"
  by (simp add: parse_simps row3_def)

lemma parse_non_numeric: "parse_event ''abc,alloc,1,16,0,0,0'' = Inl invalid_argument"
  by (simp add: parse_simps)

lemma parse_empty_field: "parse_event ''5,alloc,,16,0,0,0'' = Inl invalid_argument"
  by (simp add: parse_simps)

lemma parse_too_large: "parse_event ''18446744073709551616,alloc,1,16,0,0,0'' = Inl out_of_range"
  by (simp add: parse_simps)

lemma parse_short_row: "parse_event ''5,alloc,1,16,3,7'' = Inr None"
  by (simp add: parse_simps)

lemmas csv_simps = parse_csv_line_def next_token_def strtok_def atoi_def atol_def strtol_def
  isspace_def isdigit_def decimal_value_def digit_value_def

text \<open>
  Claim C6. The claim asks that a row with a non-numeric required field be dropped and
  loading go on. \<open>parse_event\<close> returns \<open>false\<close> only when a field is missing; for a
  field that is not a number \<open>std::stoull\<close> throws, and the exception leaves
  \<open>load_oracle\<close>: the load of a file whose only data row starts with \<open>abc\<close> ends in
  \<open>std::invalid_argument\<close> instead of an event list, and so does a load with an empty
  numeric field, whatever rows follow. A row that is one field short is dropped, as the
  claim says. In the C replayer a row with fewer than four fields is dropped as well,
  while a non-numeric object id is read as 0 and the allocation is performed for
  object 0.
\<close>

theorem C6_non_numeric_field_aborts:
  "load_oracle std_sort (Some [header_line, ''abc,alloc,1,16,0,0,0'']) = Inl invalid_argument \<and>
   load_oracle std_sort (Some [header_line, ''5,alloc,,16,0,0,0'', ''5,alloc,1,16,3,7,2'']) =
     Inl invalid_argument \<and>
   load_oracle std_sort (Some [header_line, ''5,alloc,1,16,3,7'', ''5,alloc,1,16,3,7,2'']) =
     Inr (0 < length (std_sort [row1]), std_sort [row1]) \<and>
   parse_csv_line be ''5,alloc,7'' st = st \<and>
   parse_csv_line be ''5,alloc,abc,16'' st = handle_alloc be 0 16 st"
proof -
  have c: "parse_csv_line be ''5,alloc,7'' st = st"
    "parse_csv_line be ''5,alloc,abc,16'' st = handle_alloc be 0 16 st"
    by (simp_all add: csv_simps)
  show ?thesis
    using c
    by (simp add: load_oracle_def parse_non_numeric parse_empty_field parse_short_row parse_row1
        Let_def)
qed

lemma sort_by_timestamp_contract: "std_sort_contract sort_by_timestamp"
  unfolding std_sort_contract_def sort_by_timestamp_def
proof (intro allI conjI)
  fix xs :: "Event list"
  show "mset (sort_key timestamp xs) = mset xs" by simp
  have "sorted (map timestamp (sort_key timestamp xs))" by (rule sorted_sort_key)
  then show "sorted_wrt (\<lambda>a b. \<not> timestamp b < timestamp a) (sort_key timestamp xs)"
    by (simp add: sorted_wrt_map not_less)
qed

lemma read_tie_file:
  "read_lines False tie_file [] =
     Inr (map tie_row [1, 2, 3, 4, 5, 6, 7, 8, 9, 10, 11, 12, 13, 14, 15, 16, 17])"
  by (simp add: tie_file_def parse_simps tie_row_def)

lemma sort_tie_rows:
  "stl_sort (map tie_row [1, 2, 3, 4, 5, 6, 7, 8, 9, 10, 11, 12, 13, 14, 15, 16, 17]) =
     Some (map tie_row [9, 17, 16, 15, 14, 13, 12, 11, 10, 1, 8, 7, 6, 5, 4, 3, 2])"
  by code_simp

lemma sort_two_rows: "stl_sort [row1, row2] = Some [row1, row2]"
  by code_simp

text \<open>
  Claim C7, as amended. For every file that \<open>load_oracle\<close> reads to the end, and every
  \<open>std::sort\<close> that keeps the promise of the standard, the loaded event sequence is
  sorted by timestamp ascending and is a permutation of the rows parsed, whether or not
  the file was sorted; the flag returned says whether any row was parsed. The order of
  events with equal timestamps is not part of the statement.
\<close>

theorem C7_events_sorted_by_timestamp:
  assumes "std_sort_contract std_sort" and "read_lines False lines [] = Inr parsed"
  shows "\<exists>evs. load_oracle std_sort (Some lines) = Inr (parsed \<noteq> [], evs) \<and>
           sorted_wrt (\<lambda>a b. timestamp a \<le> timestamp b) evs \<and> mset evs = mset parsed"
proof -
  from assms(1) have m: "mset (std_sort parsed) = mset parsed"
    and s: "sorted_wrt (\<lambda>a b. \<not> timestamp b < timestamp a) (std_sort parsed)"
    by (simp_all add: std_sort_contract_def)
  from m have "length (std_sort parsed) = length parsed"
    by (metis size_mset)
  then have l: "(0 < length (std_sort parsed)) = (parsed \<noteq> [])" by simp
  from s have "sorted_wrt (\<lambda>a b. timestamp a \<le> timestamp b) (std_sort parsed)"
    by (simp add: not_less)
  with m l assms(2) show ?thesis
    by (simp add: load_oracle_def)
qed

text \<open>An unsorted file: the row with timestamp 3 comes after a row with timestamp 5.\<close>

theorem C7_witness:
  "std_sort_contract sort_by_timestamp \<and>
   read_lines False [header_line, ''5,alloc,1,16,3,7,2'', ''3,free,1,0,0,7,0''] [] =
     Inr [row1, row3] \<and>
   (\<exists>evs. load_oracle sort_by_timestamp
             (Some [header_line, ''5,alloc,1,16,3,7,2'', ''3,free,1,0,0,7,0'']) =
             Inr ([row1, row3] \<noteq> [], evs) \<and>
           sorted_wrt (\<lambda>a b. timestamp a \<le> timestamp b) evs \<and> mset evs = mset [row1, row3])"
proof -
  have r: "read_lines False [header_line, ''5,alloc,1,16,3,7,2'', ''3,free,1,0,0,7,0''] [] =
      Inr [row1, row3]"
    by (simp add: parse_row1 parse_row3)
  show ?thesis
    using C7_events_sorted_by_timestamp [OF sort_by_timestamp_contract r]
      sort_by_timestamp_contract r
    by simp
qed

text \<open>
  Claim C7 as stated fails: the code calls \<open>std::sort\<close>, not a stable sort. On a file of
  seventeen rows with the same timestamp, for objects 1 to 17 in that order, the
  introsort of libstdc++ swaps the middle row to the front and then swaps rows pairwise
  from both ends: the loaded sequence starts with objects 9, 17, 16 and ends with
  objects 3, 2. Up to sixteen rows are only insertion sorted, which keeps two rows of
  one timestamp in their input order.
\<close>

theorem C7_counterexample:
  "load_oracle (the \<circ> stl_sort) (Some tie_file) =
     Inr (True, map tie_row [9, 17, 16, 15, 14, 13, 12, 11, 10, 1, 8, 7, 6, 5, 4, 3, 2])"
  using read_tie_file sort_tie_rows by (simp add: load_oracle_def)

text \<open>
  Claim C10. The loader discards the first line of the file by position, before any
  parsing: what \<open>load_oracle\<close> returns does not depend on the first line at all. The row
  \<open>5,alloc,1,16,3,7,2\<close> is a well-formed event row, and as the first line of a file it
  contributes no event: alone it leaves the event sequence as the sort of the empty
  vector, and before a second row only the second row is loaded.
\<close>

theorem C10_first_line_discarded:
  "load_oracle std_sort (Some (first_line # rest)) =
     load_oracle std_sort (Some (other_line # rest)) \<and>
   parse_event ''5,alloc,1,16,3,7,2'' = Inr (Some row1) \<and>
   load_oracle std_sort (Some [''5,alloc,1,16,3,7,2'']) =
     Inr (0 < length (std_sort []), std_sort []) \<and>
   load_oracle std_sort (Some [''5,alloc,1,16,3,7,2'', ''5,alloc,2,16,3,7,2'']) =
     Inr (0 < length (std_sort [row2]), std_sort [row2])"
  by (simp add: load_oracle_def parse_row1 parse_row2 Let_def)

section \<open>The sweep of the GC simulator\<close>

lemma sweep_one_absent: "gc_allocations s d = None \<Longrightarrow> sweep_one be s d = s"
  by (simp add: sweep_one_def)

lemma sweep_one_shrinks:
  "gc_allocations s k = None \<Longrightarrow> gc_allocations (sweep_one be s d) k = None"
  by (simp add: sweep_one_def Let_def split: option.split)

lemma sweep_shrinks:
  "gc_allocations s k = None \<Longrightarrow> gc_allocations (foldl (sweep_one be) s ds) k = None"
  by (induction ds arbitrary: s) (simp_all add: sweep_one_shrinks)

lemma sweep_one_fields [simp]:
  "deadObjects (sweep_one be s d) = deadObjects s"
  "gcThreshold (sweep_one be s d) = gcThreshold s"
  "allocationThreshold (sweep_one be s d) = allocationThreshold s"
  "allocationsSinceLastGC (sweep_one be s d) = allocationsSinceLastGC s"
  "gcCollections (gc_stats (sweep_one be s d)) = gcCollections (gc_stats s)"
  "totalGCTime (gc_stats (sweep_one be s d)) = totalGCTime (gc_stats s)"
  by (simp_all add: sweep_one_def Let_def recordDeallocation_def split: option.split)

lemma sweep_fields [simp]:
  "deadObjects (foldl (sweep_one be) s ds) = deadObjects s"
  "gcThreshold (foldl (sweep_one be) s ds) = gcThreshold s"
  "allocationThreshold (foldl (sweep_one be) s ds) = allocationThreshold s"
  "allocationsSinceLastGC (foldl (sweep_one be) s ds) = allocationsSinceLastGC s"
  "gcCollections (gc_stats (foldl (sweep_one be) s ds)) = gcCollections (gc_stats s)"
  "totalGCTime (gc_stats (foldl (sweep_one be) s ds)) = totalGCTime (gc_stats s)"
  by (induction ds arbitrary: s) simp_all

text \<open>Ids that were absent from the table when the sweep began can be left out of it.\<close>

lemma sweep_filter_present:
  "\<forall>k. gc_allocations s0 k = None \<longrightarrow> gc_allocations s k = None \<Longrightarrow>
   foldl (sweep_one be) s (filter (\<lambda>d. gc_allocations s0 d \<noteq> None) ds) =
   foldl (sweep_one be) s ds"
proof (induction ds arbitrary: s)
  case Nil
  then show ?case by simp
next
  case (Cons d ds)
  have keep: "\<forall>k. gc_allocations s0 k = None \<longrightarrow> gc_allocations (sweep_one be s d) k = None"
    using Cons.prems by (simp add: sweep_one_shrinks)
  show ?case
  proof (cases "gc_allocations s0 d")
    case None
    with Cons.prems have "sweep_one be s d = s" by (simp add: sweep_one_absent)
    with None Cons.IH [OF Cons.prems] show ?thesis by simp
  next
    case (Some p)
    with Cons.IH [OF keep] show ?thesis by simp
  qed
qed

lemma sweep_set_dead:
  "foldl (sweep_one be) (s\<lparr>deadObjects := q\<rparr>) ds = (foldl (sweep_one be) s ds)\<lparr>deadObjects := q\<rparr>"
proof (induction ds rule: rev_induct)
  case Nil
  then show ?case by simp
next
  case (snoc x xs)
  then show ?case by (simp add: sweep_one_def Let_def split: option.split)
qed

lemma performGC_filter_present:
  "performGC be clock s =
   performGC be clock (s\<lparr>deadObjects := filter (\<lambda>d. gc_allocations s d \<noteq> None) (deadObjects s)\<rparr>)"
proof -
  have "foldl (sweep_one be) s (filter (\<lambda>d. gc_allocations s d \<noteq> None) (deadObjects s)) =
        foldl (sweep_one be) s (deadObjects s)"
    by (rule sweep_filter_present) simp
  then show ?thesis
    unfolding performGC_def Let_def by (simp add: sweep_set_dead)
qed

lemma performGC_dead [simp]: "deadObjects (performGC be clock s) = []"
  by (simp add: performGC_def Let_def)

lemma performGC_counter [simp]: "allocationsSinceLastGC (performGC be clock s) = 0"
  by (simp add: performGC_def Let_def)

lemma performGC_collections [simp]:
  "gcCollections (gc_stats (performGC be clock s)) = gcCollections (gc_stats s) + 1"
  by (simp add: performGC_def Let_def recordGC_def)

lemma performGC_thresholds [simp]:
  "gcThreshold (performGC be clock s) = gcThreshold s"
  "allocationThreshold (performGC be clock s) = allocationThreshold s"
  by (simp_all add: performGC_def Let_def)

lemma performGC_empty:
  "deadObjects s = [] \<Longrightarrow>
   performGC be clock s =
     s\<lparr>allocationsSinceLastGC := 0,
       gc_stats := recordGC (clock (gcCollections (gc_stats s))) (gc_stats s)\<rparr>"
  by (simp add: performGC_def Let_def)

lemma performGC_shrinks:
  "gc_allocations s k = None \<Longrightarrow> gc_allocations (performGC be clock s) k = None"
  by (simp add: performGC_def Let_def sweep_shrinks)

text \<open>
  Claim C5. A collection run on an empty dead set, such as a second collection right
  after a first, changes nothing of what a sweep reclaims or accounts for: the live
  table, the size table, the heap and every allocation and deallocation counter are as
  they were. What every pass does, it does here too: the since-last-collection counter
  is set to zero, the collection count goes up by one and the measured duration is added
  to the total GC time. For an id of the dead set that is absent from the live table the
  sweep does nothing, so nothing is released for it, and a collection has the same
  result as the collection without the ids that were absent when it began. After every
  collection the dead set is empty and the since-last-collection counter is zero.
\<close>

theorem C5_sweep_idempotent_on_tables:
  "(deadObjects s = [] \<longrightarrow>
      performGC be clock s =
        s\<lparr>allocationsSinceLastGC := 0,
          gc_stats := (gc_stats s)\<lparr>gcCollections := gcCollections (gc_stats s) + 1,
             totalGCTime := totalGCTime (gc_stats s) + clock (gcCollections (gc_stats s))\<rparr>\<rparr>) \<and>
   performGC be clock (performGC be clock s) =
     (performGC be clock s)
       \<lparr>gc_stats := (gc_stats (performGC be clock s))
          \<lparr>gcCollections := gcCollections (gc_stats s) + 2,
           totalGCTime := totalGCTime (gc_stats (performGC be clock s)) +
                          clock (gcCollections (gc_stats s) + 1)\<rparr>\<rparr> \<and>
   (gc_allocations s d = None \<longrightarrow> sweep_one be s d = s) \<and>
   performGC be clock s =
     performGC be clock
       (s\<lparr>deadObjects := filter (\<lambda>d. gc_allocations s d \<noteq> None) (deadObjects s)\<rparr>) \<and>
   deadObjects (performGC be clock s) = [] \<and>
   allocationsSinceLastGC (performGC be clock s) = 0"
proof -
  have a: "deadObjects s = [] \<longrightarrow>
      performGC be clock s =
        s\<lparr>allocationsSinceLastGC := 0,
          gc_stats := (gc_stats s)\<lparr>gcCollections := gcCollections (gc_stats s) + 1,
             totalGCTime := totalGCTime (gc_stats s) + clock (gcCollections (gc_stats s))\<rparr>\<rparr>"
    by (simp add: performGC_empty recordGC_def)
  have b: "performGC be clock (performGC be clock s) =
     (performGC be clock s)
       \<lparr>gc_stats := (gc_stats (performGC be clock s))
          \<lparr>gcCollections := gcCollections (gc_stats s) + 2,
           totalGCTime := totalGCTime (gc_stats (performGC be clock s)) +
                          clock (gcCollections (gc_stats s) + 1)\<rparr>\<rparr>"
    by (subst performGC_empty [of "performGC be clock s"]) (simp_all add: recordGC_def)
  have c: "performGC be clock s =
     performGC be clock
       (s\<lparr>deadObjects := filter (\<lambda>d. gc_allocations s d \<noteq> None) (deadObjects s)\<rparr>)"
    by (rule performGC_filter_present)
  show ?thesis
    using a b c by (simp add: sweep_one_absent)
qed

theorem C5_witness:
  "performGC never_fails (\<lambda>n. 0) gc0 =
     gc0\<lparr>allocationsSinceLastGC := 0,
         gc_stats := (gc_stats gc0)\<lparr>gcCollections := gcCollections (gc_stats gc0) + 1,
            totalGCTime := totalGCTime (gc_stats gc0) + 0\<rparr>\<rparr> \<and>
   sweep_one never_fails (gc0\<lparr>deadObjects := [7]\<rparr>) 7 = gc0\<lparr>deadObjects := [7]\<rparr>"
proof -
  have 1: "deadObjects gc0 = []"
    by (simp add: gc0_def GCSimulator_init_def)
  have 2: "gc_allocations (gc0\<lparr>deadObjects := [7]\<rparr>) 7 = None"
    by (simp add: gc0_def GCSimulator_init_def)
  show ?thesis
    using C5_sweep_idempotent_on_tables [of gc0 never_fails "\<lambda>n. 0" 7]
      C5_sweep_idempotent_on_tables [of "gc0\<lparr>deadObjects := [7]\<rparr>" never_fails "\<lambda>n. 0" 7] 1 2
    by simp
qed

section \<open>Allocation in the GC simulator\<close>

lemma sweep_one_alloc_stats [simp]:
  "totalAllocations (gc_stats (sweep_one be s d)) = totalAllocations (gc_stats s)"
  "totalBytesAllocated (gc_stats (sweep_one be s d)) = totalBytesAllocated (gc_stats s)"
  by (simp_all add: sweep_one_def Let_def recordDeallocation_def split: option.split)

lemma sweep_alloc_stats [simp]:
  "totalAllocations (gc_stats (foldl (sweep_one be) s ds)) = totalAllocations (gc_stats s)"
  "totalBytesAllocated (gc_stats (foldl (sweep_one be) s ds)) = totalBytesAllocated (gc_stats s)"
  by (induction ds arbitrary: s) simp_all

lemma performGC_alloc_stats [simp]:
  "totalAllocations (gc_stats (performGC be clock s)) = totalAllocations (gc_stats s)"
  "totalBytesAllocated (gc_stats (performGC be clock s)) = totalBytesAllocated (gc_stats s)"
  by (simp_all add: performGC_def Let_def recordGC_def)

lemma gc_allocate_first_ok:
  "fst (backend_allocate be sz (gc_heap s)) \<noteq> 0 \<Longrightarrow>
   gc_allocate be clock sz oid arr s =
     (let p = fst (backend_allocate be sz (gc_heap s));
          s4 = s\<lparr>gc_heap := snd (backend_allocate be sz (gc_heap s)),
                 gc_allocations := (gc_allocations s)(oid \<mapsto> p),
                 gc_sizes := (gc_sizes s)(oid \<mapsto> sz),
                 gc_stats := recordAllocation sz (gc_stats s),
                 allocationsSinceLastGC := allocationsSinceLastGC s + 1\<rparr>
      in (p, if gcThreshold s < currentMemoryUsage (gc_stats s) + sz \<or>
                allocationThreshold s < allocationsSinceLastGC s + 1
             then performGC be clock s4 else s4))"
  by (simp add: gc_allocate_def split_beta Let_def recordAllocation_def)

lemma gc_allocate_first_null:
  "fst (backend_allocate be sz (gc_heap s)) = 0 \<Longrightarrow>
   gc_allocate be clock sz oid arr s =
     (let sg = performGC be clock (s\<lparr>gc_heap := snd (backend_allocate be sz (gc_heap s))\<rparr>)
      in if fst (backend_allocate be sz (gc_heap sg)) = 0
         then (0, sg\<lparr>gc_heap := snd (backend_allocate be sz (gc_heap sg))\<rparr>)
         else gc_allocate be clock sz oid arr sg)"
  by (simp add: gc_allocate_def split_beta Let_def)

lemma recordAllocation_gc [simp]:
  "gcCollections (recordAllocation sz st) = gcCollections st"
  by (simp add: recordAllocation_def Let_def)


lemma recordAllocation_fields [simp]:
  "totalAllocations (recordAllocation sz st) = totalAllocations st + 1"
  "totalBytesAllocated (recordAllocation sz st) = totalBytesAllocated st + sz"
  "currentMemoryUsage (recordAllocation sz st) = currentMemoryUsage st + sz"
  "totalDeallocations (recordAllocation sz st) = totalDeallocations st"
  "totalBytesFreed (recordAllocation sz st) = totalBytesFreed st"
  "totalGCTime (recordAllocation sz st) = totalGCTime st"
  by (simp_all add: recordAllocation_def Let_def)

lemma recordDeallocation_fields [simp]:
  "totalDeallocations (recordDeallocation sz st) = totalDeallocations st + 1"
  "totalBytesFreed (recordDeallocation sz st) = totalBytesFreed st + sz"
  "currentMemoryUsage (recordDeallocation sz st) = currentMemoryUsage st - sz"
  "gcCollections (recordDeallocation sz st) = gcCollections st"
  by (simp_all add: recordDeallocation_def)

lemma recordGC_fields [simp]:
  "totalDeallocations (recordGC t st) = totalDeallocations st"
  "totalBytesFreed (recordGC t st) = totalBytesFreed st"
  "currentMemoryUsage (recordGC t st) = currentMemoryUsage st"
  "gcCollections (recordGC t st) = gcCollections st + 1"
  by (simp_all add: recordGC_def)



lemma never_fails_ok [simp]: "fst (backend_allocate never_fails sz n) \<noteq> 0"
proof -
  have "odd (2 * word_of_nat n + 1 :: 64 word)" by simp
  then have "(2 * word_of_nat n + 1 :: 64 word) \<noteq> 0"
    by (metis even_zero)
  then show ?thesis by (simp add: never_fails_def scripted_backend_def)
qed

lemma always_fails_null [simp]: "backend_allocate always_fails sz n = (0, Suc n)"
  by (simp add: always_fails_def scripted_backend_def)




lemma gc_allocate_null_iff:
  "fst (gc_allocate be clock sz oid arr s) = 0 \<longleftrightarrow>
   fst (backend_allocate be sz (gc_heap s)) = 0 \<and>
   fst (backend_allocate be sz
         (gc_heap (performGC be clock (s\<lparr>gc_heap := snd (backend_allocate be sz (gc_heap s))\<rparr>)))) = 0"
  by (simp add: gc_allocate_def split_beta Let_def)

lemma gc_allocate_null_state:
  "fst (gc_allocate be clock sz oid arr s) = 0 \<Longrightarrow>
   snd (gc_allocate be clock sz oid arr s) =
     (let sg = performGC be clock (s\<lparr>gc_heap := snd (backend_allocate be sz (gc_heap s))\<rparr>)
      in sg\<lparr>gc_heap := snd (backend_allocate be sz (gc_heap sg))\<rparr>)"
  by (simp add: gc_allocate_def split_beta Let_def split: if_splits)

lemma gc_allocate_as_explicit:
  assumes "fst (backend_allocate be sz (gc_heap s)) \<noteq> 0"
  shows "\<exists>s4. as_explicit s4 = snd (explicit_allocate be sz oid arr (as_explicit s)) \<and>
          fst (gc_allocate be clock sz oid arr s) = fst (explicit_allocate be sz oid arr (as_explicit s)) \<and>
          snd (gc_allocate be clock sz oid arr s) =
            (if gcThreshold s < currentMemoryUsage (gc_stats s4) \<or>
                allocationThreshold s < allocationsSinceLastGC s + 1
             then performGC be clock s4 else s4)"
proof -
  let ?p = "fst (backend_allocate be sz (gc_heap s))"
  let ?s4 = "s\<lparr>gc_heap := snd (backend_allocate be sz (gc_heap s)),
                 gc_allocations := (gc_allocations s)(oid \<mapsto> ?p),
                 gc_sizes := (gc_sizes s)(oid \<mapsto> sz),
                 gc_stats := recordAllocation sz (gc_stats s),
                 allocationsSinceLastGC := allocationsSinceLastGC s + 1\<rparr>"
  have "as_explicit ?s4 = snd (explicit_allocate be sz oid arr (as_explicit s))"
    using assms by (simp add: as_explicit_def explicit_allocate_def split_beta Let_def)
  moreover have "fst (gc_allocate be clock sz oid arr s) =
      fst (explicit_allocate be sz oid arr (as_explicit s))"
    using assms
    by (simp add: gc_allocate_first_ok as_explicit_def explicit_allocate_def split_beta Let_def)
  moreover have "snd (gc_allocate be clock sz oid arr s) =
            (if gcThreshold s < currentMemoryUsage (gc_stats ?s4) \<or>
                allocationThreshold s < allocationsSinceLastGC s + 1
             then performGC be clock ?s4 else ?s4)"
    using assms by (simp add: gc_allocate_first_ok Let_def)
  ultimately show ?thesis by blast
qed

text \<open>
  Claim C4. In GC mode, when the backend answers null, \<open>allocate\<close> runs one collection
  and asks the backend once more. If that answer is null too, \<open>allocate\<close> returns null,
  with the state the collection left and the heap after the second request: one
  collection has run and no entry for the object has been created. If the retry
  succeeds, \<open>allocate\<close> is the allocation on the collected state, whose first request is
  the retry. An allocation whose first request succeeds updates the tables, the
  statistics and the heap exactly as the explicit manager's \<open>allocate\<close> does, and returns
  the same pointer, before the collection trigger is checked.
\<close>

theorem C4_retry_once_after_collection:
  "(fst (backend_allocate be sz (gc_heap s)) = 0 \<longrightarrow>
     gc_allocate be clock sz oid arr s =
       (let sg = performGC be clock (s\<lparr>gc_heap := snd (backend_allocate be sz (gc_heap s))\<rparr>)
        in if fst (backend_allocate be sz (gc_heap sg)) = 0
           then (0, sg\<lparr>gc_heap := snd (backend_allocate be sz (gc_heap sg))\<rparr>)
           else gc_allocate be clock sz oid arr sg)) \<and>
   (fst (gc_allocate be clock sz oid arr s) = 0 \<longrightarrow>
     gcCollections (gc_stats (snd (gc_allocate be clock sz oid arr s))) =
       gcCollections (gc_stats s) + 1 \<and>
     (gc_allocations s oid = None \<longrightarrow>
        gc_allocations (snd (gc_allocate be clock sz oid arr s)) oid = None)) \<and>
   (fst (backend_allocate be sz (gc_heap s)) \<noteq> 0 \<longrightarrow>
     (\<exists>s4. as_explicit s4 = snd (explicit_allocate be sz oid arr (as_explicit s)) \<and>
          fst (gc_allocate be clock sz oid arr s) =
            fst (explicit_allocate be sz oid arr (as_explicit s)) \<and>
          snd (gc_allocate be clock sz oid arr s) =
            (if gcThreshold s < currentMemoryUsage (gc_stats s4) \<or>
                allocationThreshold s < allocationsSinceLastGC s + 1
             then performGC be clock s4 else s4)))"
proof -
  have n: "fst (gc_allocate be clock sz oid arr s) = 0 \<longrightarrow>
     gcCollections (gc_stats (snd (gc_allocate be clock sz oid arr s))) =
       gcCollections (gc_stats s) + 1 \<and>
     (gc_allocations s oid = None \<longrightarrow>
        gc_allocations (snd (gc_allocate be clock sz oid arr s)) oid = None)"
    by (simp add: gc_allocate_null_state Let_def performGC_shrinks)
  show ?thesis
    using gc_allocate_first_null [of be sz s clock oid arr]
      gc_allocate_as_explicit [of be sz s oid arr clock] n
    by blast
qed

lemma fails_once_first [simp]: "backend_allocate fails_once sz 0 = (0, Suc 0)"
  by (simp add: fails_once_def scripted_backend_def)

lemma fails_once_second [simp]: "backend_allocate fails_once sz (Suc 0) = (4096, Suc (Suc 0))"
  by (simp add: fails_once_def scripted_backend_def)

text \<open>
  A backend that always fails is asked twice, as the heap of the stand-in counts; one
  that fails once serves the retry.
\<close>

theorem C4_witness:
  "fst (backend_allocate always_fails 16 (gc_heap gc0)) = 0 \<and>
   gc_allocate always_fails (\<lambda>n. 0) 16 1 False gc0 =
     (0, (performGC always_fails (\<lambda>n. 0) (gc0\<lparr>gc_heap := 1\<rparr>))\<lparr>gc_heap := 2\<rparr>) \<and>
   fst (backend_allocate fails_once 16 (gc_heap gc0)) = 0 \<and>
   gc_allocate fails_once (\<lambda>n. 0) 16 1 False gc0 =
     gc_allocate fails_once (\<lambda>n. 0) 16 1 False (performGC fails_once (\<lambda>n. 0) (gc0\<lparr>gc_heap := 1\<rparr>)) \<and>
   fst (gc_allocate fails_once (\<lambda>n. 0) 16 1 False gc0) = 4096"
proof -
  have h: "gc_heap gc0 = 0" by (simp add: gc0_def GCSimulator_init_def)
  have g: "gc_heap (performGC be clock (gc0\<lparr>gc_heap := 1\<rparr>)) = 1" for be :: "nat AllocatorBackend" and clock
    by (simp add: performGC_def Let_def gc0_def GCSimulator_init_def)
  have a: "gc_allocate always_fails (\<lambda>n. 0) 16 1 False gc0 =
     (0, (performGC always_fails (\<lambda>n. 0) (gc0\<lparr>gc_heap := 1\<rparr>))\<lparr>gc_heap := 2\<rparr>)"
    using C4_retry_once_after_collection [of always_fails 16 gc0 "\<lambda>n. 0" 1 False] h g by (simp add: Let_def)
  have b: "gc_allocate fails_once (\<lambda>n. 0) 16 1 False gc0 =
     gc_allocate fails_once (\<lambda>n. 0) 16 1 False (performGC fails_once (\<lambda>n. 0) (gc0\<lparr>gc_heap := 1\<rparr>))"
    using C4_retry_once_after_collection [of fails_once 16 gc0 "\<lambda>n. 0" 1 False] h g by (simp add: Let_def)
  have c: "fst (gc_allocate fails_once (\<lambda>n. 0) 16 1 False
              (performGC fails_once (\<lambda>n. 0) (gc0\<lparr>gc_heap := 1\<rparr>))) = 4096"
    using g by (simp add: gc_allocate_first_ok Let_def)
  show ?thesis using a b c h by simp
qed

section \<open>Frees of absent objects and failed allocations\<close>

text \<open>
  Claim C8, as amended. A free of an object id that is absent from the live table never
  fails and releases nothing. In the C replayer \<open>handle_free\<close> changes nothing but the
  failed-free counter, which goes up by exactly 1: the table, the heap and the byte
  counters stay as they were. In the explicit manager \<open>deallocate\<close> leaves the whole
  state as it was, statistics included; there is no failed-free counter to increment.
\<close>

theorem C8_free_of_absent_object:
  "(find_allocation st oid = None \<longrightarrow>
      handle_free be oid st = st\<lparr>failed_frees := failed_frees st + 1\<rparr>) \<and>
   (em_allocations s objectId = None \<longrightarrow> explicit_deallocate be' objectId sz s = s) \<and>
   (em_allocations s objectId = None \<longrightarrow>
      deallocate be' objectId sz (Explicit s) = Explicit s)"
  by (simp add: handle_free_def explicit_deallocate_def deallocate_def)

text \<open>
  A free of object 999 against an empty table, in both replayers.
\<close>

theorem C8_witness:
  "find_allocation (init_stats (0::nat)) 999 = None \<and>
   em_allocations (ExplicitMemoryManager_init (0::nat)) 999 = None \<and>
   handle_free never_fails 999 (init_stats 0) =
     (init_stats 0)\<lparr>failed_frees := 1\<rparr> \<and>
   explicit_deallocate never_fails 999 64 (ExplicitMemoryManager_init 0) =
     ExplicitMemoryManager_init 0"
proof -
  have 1: "find_allocation (init_stats (0::nat)) 999 = None"
    by (simp add: find_allocation_def init_stats_def)
  have 2: "em_allocations (ExplicitMemoryManager_init (0::nat)) 999 = None"
    by (simp add: ExplicitMemoryManager_init_def)
  have 3: "failed_frees (init_stats (0::nat)) = 0"
    by (simp add: init_stats_def)
  show ?thesis
    using C8_free_of_absent_object [of "init_stats 0" 999 never_fails "ExplicitMemoryManager_init 0" 999 never_fails 64]
      1 2 3
    by simp
qed

text \<open>
  Claim C8 as stated fails for the explicit manager: after a free of the absent object
  999 every counter of its statistics is what it was, so none has been incremented.
\<close>

theorem C8_counterexample:
  "em_allocations (ExplicitMemoryManager_init (0::nat)) 999 = None \<and>
   explicit_deallocate never_fails 999 64 (ExplicitMemoryManager_init 0) =
     ExplicitMemoryManager_init 0"
  by (simp add: explicit_deallocate_def ExplicitMemoryManager_init_def)

text \<open>
  Claim C9, as amended. When the backend answers null to an allocation request, the
  operation returns and created no entry in the table of live allocations. In the C
  replayer \<open>handle_alloc\<close> changes nothing but the heap behind the request and the
  failed-allocation counter, which goes up by 1. The explicit manager's \<open>allocate\<close>
  returns null and changes nothing but the heap behind the request: the failure is not
  counted. When the GC simulator's \<open>allocate\<close> returns null, an object that had no entry
  has none afterwards, and the allocation counters are what they were.
\<close>

theorem C9_backend_returns_null:
  "(fst (backend_allocate be sz (c_heap st)) = 0 \<longrightarrow>
      handle_alloc be oid sz st =
        st\<lparr>c_heap := snd (backend_allocate be sz (c_heap st)),
           failed_allocations := failed_allocations st + 1\<rparr>) \<and>
   (fst (backend_allocate be' sz (em_heap s)) = 0 \<longrightarrow>
      explicit_allocate be' sz objectId arr s =
        (0, s\<lparr>em_heap := snd (backend_allocate be' sz (em_heap s))\<rparr>)) \<and>
   (fst (gc_allocate be' clock sz objectId arr g) = 0 \<longrightarrow>
      gc_allocations g objectId = None \<longrightarrow>
      gc_allocations (snd (gc_allocate be' clock sz objectId arr g)) objectId = None \<and>
      totalAllocations (gc_stats (snd (gc_allocate be' clock sz objectId arr g))) =
        totalAllocations (gc_stats g) \<and>
      totalBytesAllocated (gc_stats (snd (gc_allocate be' clock sz objectId arr g))) =
        totalBytesAllocated (gc_stats g))"
proof -
  have c: "fst (backend_allocate be sz (c_heap st)) = 0 \<longrightarrow>
      handle_alloc be oid sz st =
        st\<lparr>c_heap := snd (backend_allocate be sz (c_heap st)),
           failed_allocations := failed_allocations st + 1\<rparr>"
    by (simp add: handle_alloc_def split_beta Let_def)
  have e: "fst (backend_allocate be' sz (em_heap s)) = 0 \<longrightarrow>
      explicit_allocate be' sz objectId arr s =
        (0, s\<lparr>em_heap := snd (backend_allocate be' sz (em_heap s))\<rparr>)"
    by (simp add: explicit_allocate_def split_beta Let_def)
  have g: "fst (gc_allocate be' clock sz objectId arr g) = 0 \<longrightarrow>
      gc_allocations g objectId = None \<longrightarrow>
      gc_allocations (snd (gc_allocate be' clock sz objectId arr g)) objectId = None \<and>
      totalAllocations (gc_stats (snd (gc_allocate be' clock sz objectId arr g))) =
        totalAllocations (gc_stats g) \<and>
      totalBytesAllocated (gc_stats (snd (gc_allocate be' clock sz objectId arr g))) =
        totalBytesAllocated (gc_stats g)"
    by (simp add: gc_allocate_null_state Let_def performGC_shrinks)
  from c e g show ?thesis by blast
qed

text \<open>
  An allocation of 16 bytes for object 1 against a backend that always fails.
\<close>

theorem C9_witness:
  "handle_alloc always_fails 1 16 (init_stats 0) =
     (init_stats 0)\<lparr>c_heap := 1, failed_allocations := 0 + 1\<rparr> \<and>
   explicit_allocate always_fails 16 1 False (ExplicitMemoryManager_init 0) =
     (0, (ExplicitMemoryManager_init 0)\<lparr>em_heap := 1\<rparr>) \<and>
   gc_allocations (snd (gc_allocate always_fails (\<lambda>n. 0) 16 1 False gc0)) 1 = None \<and>
   totalAllocations (gc_stats (snd (gc_allocate always_fails (\<lambda>n. 0) 16 1 False gc0))) = 0"
proof -
  have 1: "fst (gc_allocate always_fails (\<lambda>n. 0) 16 1 False gc0) = 0"
    by (simp add: gc_allocate_null_iff)
  have 2: "gc_allocations gc0 1 = None" "totalAllocations (gc_stats gc0) = 0"
    by (simp_all add: gc0_def GCSimulator_init_def Statistics_init_def)
  show ?thesis
    using C9_backend_returns_null [of always_fails 16 "init_stats 0" 1 always_fails "ExplicitMemoryManager_init 0" 1 False
        "\<lambda>n. 0" gc0] 1 2
    by (simp add: init_stats_def ExplicitMemoryManager_init_def)
qed

text \<open>
  Claim C9 as stated fails for the simulators of TraceReplayerEnhanced.cpp: their
  statistics have no failure counter, and after a failed allocation every counter is
  what it was at the start.
\<close>

theorem C9_counterexample:
  "fst (backend_allocate always_fails 16 (em_heap (ExplicitMemoryManager_init 0))) = 0 \<and>
   em_stats (snd (explicit_allocate always_fails 16 1 False (ExplicitMemoryManager_init 0))) =
     Statistics_init \<and>
   getStatistics (memoryManager (handleObjectAllocation always_fails (\<lambda>n. 0) 1 16 0 0 0 0 False tr0)) =
     Statistics_init"
  by (simp add: explicit_allocate_def handleObjectAllocation_def allocate_def tr0_def
      ExplicitMemoryManager_init_def getStatistics_def)

text \<open>
  \<open>handleObjectAllocation\<close> does not look at the pointer it gets back: after a failed
  allocation the replayer's own table holds a record for the object with a null address.
\<close>

lemma handleObjectAllocation_null_entry:
  "liveObjects (handleObjectAllocation always_fails (\<lambda>n. 0) 1 16 0 0 0 0 False tr0) 1 =
     Some \<lparr>rec_objectId = 1, rec_size = 16, rec_typeId = 0, rec_siteId = 0, rec_length = 0,
           rec_threadId = 0, rec_address = 0, rec_isArray = False\<rparr>"
  by (simp add: explicit_allocate_def handleObjectAllocation_def allocate_def tr0_def
      ExplicitMemoryManager_init_def)

section \<open>Live bytes equal the bytes in the table\<close>

lemma table_bytes_empty [simp]: "table_bytes Map.empty sz = 0"
  by (simp add: table_bytes_def)

lemma table_bytes_insert:
  assumes "finite (dom m)" and "m k = None"
  shows "table_bytes (m(k \<mapsto> v)) sz = unat (sz v) + table_bytes m sz"
proof -
  have k: "k \<notin> dom m" using assms(2) by (simp add: domIff)
  have d: "dom (m(k \<mapsto> v)) = insert k (dom m)" by simp
  have "(\<Sum>j\<in>insert k (dom m). unat (sz (the ((m(k \<mapsto> v)) j)))) =
        unat (sz (the ((m(k \<mapsto> v)) k))) + (\<Sum>j\<in>dom m. unat (sz (the ((m(k \<mapsto> v)) j))))"
    using assms(1) k by (rule sum.insert)
  moreover have "(\<Sum>j\<in>dom m. unat (sz (the ((m(k \<mapsto> v)) j)))) =
                 (\<Sum>j\<in>dom m. unat (sz (the (m j))))"
    using k by (intro sum.cong) auto
  ultimately show ?thesis
    unfolding table_bytes_def d by simp
qed

lemma table_bytes_remove:
  assumes "finite (dom m)" and "m k = Some v"
  shows "table_bytes m sz = unat (sz v) + table_bytes (m(k := None)) sz"
proof -
  have k: "k \<in> dom m" using assms(2) by (simp add: domIff)
  have "table_bytes m sz = unat (sz (the (m k))) + (\<Sum>j\<in>dom m - {k}. unat (sz (the (m j))))"
    unfolding table_bytes_def using assms(1) k by (rule sum.remove)
  also have "(\<Sum>j\<in>dom m - {k}. unat (sz (the (m j)))) =
             (\<Sum>j\<in>dom (m(k := None)). unat (sz (the ((m(k := None)) j))))"
    by (intro sum.cong) auto
  finally show ?thesis using assms(2) by (simp add: table_bytes_def)
qed

lemma record_free_fields [simp]:
  "current_memory (record_free sz l st) = current_memory st - sz"
  "peak_memory (record_free sz l st) = peak_memory st"
  by (simp_all add: record_free_def Let_def)

lemma record_allocation_fields [simp]:
  "current_memory (record_allocation sz site st) = current_memory st + sz"
  "peak_memory (record_allocation sz site st) =
     (if peak_memory st < current_memory st + sz then current_memory st + sz else peak_memory st)"
  by (simp_all add: record_allocation_def Let_def)


lemma table_bytes_update:
  assumes "finite (dom m)"
  shows "table_bytes (m(k \<mapsto> v)) sz + replaced_bytes m sz k = unat (sz v) + table_bytes m sz"
proof (cases "m k")
  case None
  with table_bytes_insert [OF assms None, of v sz] show ?thesis
    by (simp add: replaced_bytes_def)
next
  case (Some old)
  have fin: "finite (dom (m(k := None)))" using assms by simp
  have "table_bytes ((m(k := None))(k \<mapsto> v)) sz = unat (sz v) + table_bytes (m(k := None)) sz"
    using fin by (rule table_bytes_insert) simp
  moreover have "table_bytes m sz = unat (sz old) + table_bytes (m(k := None)) sz"
    using assms Some by (rule table_bytes_remove)
  ultimately show ?thesis
    using Some by (simp add: replaced_bytes_def)
qed

lemma replaced_bytes_bound: "replaced_bytes m sz k < 2 ^ 64"
proof (cases "m k")
  case None
  then show ?thesis by (simp add: replaced_bytes_def)
next
  case (Some v)
  have "unat (sz v :: 64 word) < 2 ^ 64"
    using unsigned_less [of "sz v", where 'a = nat] by simp
  with Some show ?thesis by (simp add: replaced_bytes_def)
qed

text \<open>
  Adding a size to a counter that equals the table's bytes gives the new table's bytes
  exactly when the entry written replaces no bytes and the sum fits in 64 bits.
\<close>

lemma counter_add_iff:
  fixes c z :: "64 word"
  assumes T: "T' + r = unat z + unat c" and r: "r < 2 ^ 64"
  shows "unat (c + z) = T' \<longleftrightarrow> r = 0 \<and> unat c + unat z < 2 ^ 64"
proof (cases "unat c + unat z < 2 ^ 64")
  case True
  then have "unat (c + z) = unat c + unat z"
    by (simp add: unat_add_lem [THEN iffD1])
  with T True show ?thesis by auto
next
  case False
  have c: "unat c < 2 ^ 64" and z: "unat z < 2 ^ 64"
    using unsigned_less [of c, where 'a = nat] unsigned_less [of z, where 'a = nat] by simp_all
  have "unat (c + z) = (unat c + unat z) mod 2 ^ 64"
    by (simp add: unat_word_ariths)
  also have "\<dots> = unat c + unat z - 2 ^ 64"
    using False c z by (simp add: mod_if)
  finally have "unat (c + z) = unat c + unat z - 2 ^ 64" .
  with T r False show ?thesis by auto
qed

lemma execute_free_accounted:
  assumes "accounted s"
  shows "accounted (execute_free be s f) \<and>
         current_memory (stats (execute_free be s f)) \<le> current_memory (stats s) \<and>
         peak_memory (stats (execute_free be s f)) = peak_memory (stats s)"
proof (cases "live_objects s (object_id f)")
  case None
  with assms show ?thesis by (simp add: execute_free_def)
next
  case (Some obj)
  from assms have fin: "finite (dom (live_objects s))"
    and cur: "unat (current_memory (stats s)) = live_bytes s"
    and peak: "current_memory (stats s) \<le> peak_memory (stats s)"
    by (simp_all add: accounted_def)
  let ?s' = "execute_free be s f"
  have lo: "live_objects ?s' = (live_objects s)(object_id f := None)"
    and cm: "current_memory (stats ?s') = current_memory (stats s) - obj_size obj"
    and pk: "peak_memory (stats ?s') = peak_memory (stats s)"
    using Some by (simp_all add: execute_free_def Let_def)
  have split: "live_bytes s = unat (obj_size obj) + live_bytes ?s'"
    using table_bytes_remove [OF fin Some, of obj_size] by (simp add: live_bytes_def lo)
  then have le: "obj_size obj \<le> current_memory (stats s)"
    using cur by (simp add: word_le_nat_alt)
  then have sub: "unat (current_memory (stats ?s')) = live_bytes ?s'"
    using split cur by (simp add: cm unat_sub)
  have dec: "current_memory (stats ?s') \<le> current_memory (stats s)"
    using le by (simp add: cm word_le_nat_alt unat_sub)
  have "accounted ?s'"
    unfolding accounted_def
    using fin sub dec peak by (auto simp: lo pk)
  with dec pk show ?thesis by simp
qed

lemma drain_accounted_aux:
  "accounted s \<Longrightarrow>
   accounted (foldl (execute_free be) s fs) \<and>
   current_memory (stats (foldl (execute_free be) s fs)) \<le> current_memory (stats s) \<and>
   peak_memory (stats (foldl (execute_free be) s fs)) = peak_memory (stats s)"
proof (induction fs arbitrary: s)
  case Nil
  then show ?case by simp
next
  case (Cons f fs)
  from execute_free_accounted [OF Cons.prems, of be f]
  have 1: "accounted (execute_free be s f)"
    and 2: "current_memory (stats (execute_free be s f)) \<le> current_memory (stats s)"
    and 3: "peak_memory (stats (execute_free be s f)) = peak_memory (stats s)"
    by simp_all
  from Cons.IH [OF 1] 2 3 show ?case by auto
qed

lemma accounted_set_pending [simp]: "accounted (s\<lparr>pending_frees := q\<rparr>) = accounted s"
  by (simp add: accounted_def live_bytes_def)

lemma accounted_set_heap [simp]: "accounted (s\<lparr>heap := h\<rparr>) = accounted s"
  by (simp add: accounted_def live_bytes_def)

lemma drain_accounted:
  assumes "accounted s"
  shows "accounted (drain_in_order be s)"
    and "current_memory (stats (drain_in_order be s)) \<le> current_memory (stats s)"
    and "peak_memory (stats (drain_in_order be s)) = peak_memory (stats s)"
  using drain_accounted_aux [of "s\<lparr>pending_frees := []\<rparr>" be "pending_frees s"] assms
  by (simp_all add: drain_in_order_def)

lemma process_allocation_alt:
  "process_allocation be e s =
     (let d = drain_in_order be s;
          p = fst (do_malloc be (ev_size e) (heap d));
          d' = d\<lparr>heap := snd (do_malloc be (ev_size e) (heap d))\<rparr>
      in if p = 0 then d'
         else d'\<lparr>live_objects := (live_objects d)(object_id e \<mapsto>
                    \<lparr>address = p, obj_size = ev_size e, alloc_time = timestamp e,
                     obj_site_id = site_id e\<rparr>),
                 stats := record_allocation (ev_size e) (site_id e) (stats d)\<rparr>)"
  by (simp add: process_allocation_def execute_pending_frees_drain drain_empty Let_def split_beta)

text \<open>One event, from a state in which the counter equals the table's bytes.\<close>

lemma process_allocation_step:
  assumes acc: "accounted s"
  shows "finite (dom (live_objects (process_allocation be e s)))"
    and "unat (current_memory (stats (process_allocation be e s))) =
           live_bytes (process_allocation be e s) \<longleftrightarrow> alloc_adds_up be s e"
    and "current_memory (stats (process_allocation be e s)) \<le>
           peak_memory (stats (process_allocation be e s))"
    and "unat (peak_memory (stats (process_allocation be e s))) =
         max (unat (peak_memory (stats s))) (unat (current_memory (stats (process_allocation be e s))))"
proof -
  let ?d = "drain_in_order be s"
  let ?p = "fst (do_malloc be (ev_size e) (heap ?d))"
  let ?obj = "\<lparr>address = ?p, obj_size = ev_size e, alloc_time = timestamp e,
                     obj_site_id = site_id e\<rparr>"
  note d = drain_accounted [OF acc, of be]
  from d(1) have fin: "finite (dom (live_objects ?d))"
    and cur: "unat (current_memory (stats ?d)) = live_bytes ?d"
    and peak: "current_memory (stats ?d) \<le> peak_memory (stats ?d)"
    by (simp_all add: accounted_def)
  have le: "unat (current_memory (stats s)) \<le> unat (peak_memory (stats s))"
    using acc by (simp add: accounted_def word_le_nat_alt)
  have upd: "table_bytes ((live_objects ?d)(object_id e \<mapsto> ?obj)) obj_size +
        replaced_bytes (live_objects ?d) obj_size (object_id e) =
        unat (ev_size e) + unat (current_memory (stats ?d))"
    using table_bytes_update [OF fin, of "object_id e" ?obj obj_size] cur
    by (simp add: live_bytes_def)
  note iff = counter_add_iff [OF upd replaced_bytes_bound]
  show "finite (dom (live_objects (process_allocation be e s)))"
    using fin by (simp add: process_allocation_alt Let_def)
  show "unat (current_memory (stats (process_allocation be e s))) =
           live_bytes (process_allocation be e s) \<longleftrightarrow> alloc_adds_up be s e"
  proof (cases "?p = 0")
    case True
    then show ?thesis
      using cur by (simp add: process_allocation_alt Let_def alloc_adds_up_def live_bytes_def)
  next
    case False
    then show ?thesis
      using iff by (simp add: process_allocation_alt Let_def alloc_adds_up_def live_bytes_def)
  qed
  show "current_memory (stats (process_allocation be e s)) \<le>
           peak_memory (stats (process_allocation be e s))"
    using peak by (simp add: process_allocation_alt Let_def word_le_nat_alt word_less_nat_alt)
  show "unat (peak_memory (stats (process_allocation be e s))) =
         max (unat (peak_memory (stats s))) (unat (current_memory (stats (process_allocation be e s))))"
  proof (cases "?p = 0")
    case True
    then show ?thesis
      using d(2,3) le
      by (simp add: process_allocation_alt Let_def word_le_nat_alt max_def)
  next
    case False
    then show ?thesis
      using d(3)
      by (simp add: process_allocation_alt Let_def word_less_nat_alt max_def)
  qed
qed

lemma replay_event_step:
  assumes acc: "accounted s"
  shows "accounted (replay_event be s e) \<longleftrightarrow> (is_alloc e \<longrightarrow> alloc_adds_up be s e)"
    and "unat (current_memory (stats (replay_event be s e))) = live_bytes (replay_event be s e)
           \<longleftrightarrow> (is_alloc e \<longrightarrow> alloc_adds_up be s e)"
    and "unat (peak_memory (stats (replay_event be s e))) =
         max (unat (peak_memory (stats s))) (unat (current_memory (stats (replay_event be s e))))"
proof -
  note p = process_allocation_step [OF acc, of be e]
  have le: "unat (current_memory (stats s)) \<le> unat (peak_memory (stats s))"
    using acc by (simp add: accounted_def word_le_nat_alt)
  have same: "\<not> is_alloc e \<Longrightarrow> accounted (replay_event be s e)"
    using acc by (simp add: replay_event_def process_free_def)
  show 2: "unat (current_memory (stats (replay_event be s e))) = live_bytes (replay_event be s e)
           \<longleftrightarrow> (is_alloc e \<longrightarrow> alloc_adds_up be s e)"
    using p(2) same by (auto simp: replay_event_def accounted_def)
  show "accounted (replay_event be s e) \<longleftrightarrow> (is_alloc e \<longrightarrow> alloc_adds_up be s e)"
    using p(1,3) 2 same by (auto simp: replay_event_def accounted_def)
  show "unat (peak_memory (stats (replay_event be s e))) =
         max (unat (peak_memory (stats s))) (unat (current_memory (stats (replay_event be s e))))"
    using p(4) le by (simp add: replay_event_def process_free_def max_def)
qed

lemma init_accounted: "accounted (OracleReplayer_init h)"
  by (simp add: accounted_def OracleReplayer_init_def live_bytes_def oracle_Statistics_init_def)

lemma replay_loop_snoc:
  "replay_loop be (evs @ [e]) s = replay_event be (replay_loop be evs s) e"
  by (simp add: replay_loop_def)

lemma replay_loop_Cons:
  "replay_loop be (e # evs) s = replay_loop be evs (replay_event be s e)"
  by (simp add: replay_loop_def)

lemma adds_up_append:
  "adds_up be (xs @ ys) s \<longleftrightarrow> adds_up be xs s \<and> adds_up be ys (replay_loop be xs s)"
  by (induction xs arbitrary: s) (auto simp: replay_loop_def)

lemma replay_loop_adds_up:
  "((\<forall>q. prefix q evs \<longrightarrow>
       unat (current_memory (stats (replay_loop be q (OracleReplayer_init h)))) =
       live_bytes (replay_loop be q (OracleReplayer_init h)))
     \<longleftrightarrow> adds_up be evs (OracleReplayer_init h)) \<and>
   (adds_up be evs (OracleReplayer_init h) \<longrightarrow>
      accounted (replay_loop be evs (OracleReplayer_init h)) \<and>
      unat (peak_memory (stats (replay_loop be evs (OracleReplayer_init h)))) =
        Max ((\<lambda>q. unat (current_memory (stats (replay_loop be q (OracleReplayer_init h))))) `
             set (prefixes evs)))"
proof (induction evs rule: rev_induct)
  case Nil
  show ?case
    using init_accounted [of h]
    by (simp add: replay_loop_def accounted_def OracleReplayer_init_def oracle_Statistics_init_def)
next
  case (snoc e evs)
  let ?run = "\<lambda>q. replay_loop be q (OracleReplayer_init h)"
  let ?cur = "\<lambda>q. unat (current_memory (stats (?run q)))"
  let ?inv = "\<lambda>q. ?cur q = live_bytes (?run q)"
  let ?ok = "is_alloc e \<longrightarrow> alloc_adds_up be (?run evs) e"
  from snoc.IH have iff: "(\<forall>q. prefix q evs \<longrightarrow> ?inv q) \<longleftrightarrow> adds_up be evs (OracleReplayer_init h)"
    and acc: "adds_up be evs (OracleReplayer_init h) \<Longrightarrow> accounted (?run evs)"
    and pk: "adds_up be evs (OracleReplayer_init h) \<Longrightarrow>
        unat (peak_memory (stats (?run evs))) = Max (?cur ` set (prefixes evs))"
    by simp_all
  have ext: "adds_up be (evs @ [e]) (OracleReplayer_init h) \<longleftrightarrow>
      adds_up be evs (OracleReplayer_init h) \<and> ?ok"
    by (simp add: adds_up_append)
  have pre: "(\<forall>q. prefix q (evs @ [e]) \<longrightarrow> ?inv q) \<longleftrightarrow>
      (\<forall>q. prefix q evs \<longrightarrow> ?inv q) \<and> ?inv (evs @ [e])"
    by (auto simp: prefix_snoc)
  have first: "(\<forall>q. prefix q (evs @ [e]) \<longrightarrow> ?inv q) \<longleftrightarrow>
      adds_up be (evs @ [e]) (OracleReplayer_init h)"
  proof (cases "adds_up be evs (OracleReplayer_init h)")
    case True
    from replay_event_step(2) [OF acc [OF True], of be e]
    have "?inv (evs @ [e]) \<longleftrightarrow> ?ok" by (simp add: replay_loop_snoc)
    with True iff show ?thesis by (simp add: pre ext)
  next
    case False
    with iff have "\<not> (\<forall>q. prefix q evs \<longrightarrow> ?inv q)" by simp
    with False show ?thesis unfolding pre ext by blast
  qed
  have second: "accounted (?run (evs @ [e])) \<and>
      unat (peak_memory (stats (?run (evs @ [e])))) = Max (?cur ` set (prefixes (evs @ [e])))"
    if ok: "adds_up be (evs @ [e]) (OracleReplayer_init h)"
  proof -
    from ok ext have a: "adds_up be evs (OracleReplayer_init h)" and o: ?ok by simp_all
    note step = replay_event_step [OF acc [OF a], of be e]
    have A: "accounted (?run (evs @ [e]))"
      using step(1) o by (simp add: replay_loop_snoc)
    have "unat (peak_memory (stats (?run (evs @ [e])))) =
          max (Max (?cur ` set (prefixes evs))) (?cur (evs @ [e]))"
      using step(3) pk [OF a] by (simp add: replay_loop_snoc)
    also have "\<dots> = Max (?cur ` set (prefixes (evs @ [e])))"
    proof -
      have ne: "?cur ` set (prefixes evs) \<noteq> {}" by simp
      have "?cur ` set (prefixes (evs @ [e])) = insert (?cur (evs @ [e])) (?cur ` set (prefixes evs))"
        by auto
      then show ?thesis
        using ne by (simp add: max.commute)
    qed
    finally show ?thesis using A by simp
  qed
  from first second show ?case by blast
qed

lemma replay_adds_up:
  assumes ok: "adds_up be evs (OracleReplayer_init h)"
  shows "prefix p evs \<longrightarrow>
           unat (current_memory (stats (replay_loop be p (OracleReplayer_init h)))) =
             live_bytes (replay_loop be p (OracleReplayer_init h)) \<and>
           unat (peak_memory (stats (replay_loop be p (OracleReplayer_init h)))) =
             Max ((\<lambda>q. unat (current_memory (stats (replay_loop be q (OracleReplayer_init h))))) `
                  set (prefixes p))"
    and "unat (current_memory (stats (replay be evs (OracleReplayer_init h)))) =
           live_bytes (replay be evs (OracleReplayer_init h))"
    and "peak_memory (stats (replay be evs (OracleReplayer_init h))) =
           peak_memory (stats (replay_loop be evs (OracleReplayer_init h)))"
proof -
  show "prefix p evs \<longrightarrow>
           unat (current_memory (stats (replay_loop be p (OracleReplayer_init h)))) =
             live_bytes (replay_loop be p (OracleReplayer_init h)) \<and>
           unat (peak_memory (stats (replay_loop be p (OracleReplayer_init h)))) =
             Max ((\<lambda>q. unat (current_memory (stats (replay_loop be q (OracleReplayer_init h))))) `
                  set (prefixes p))"
  proof
    assume "prefix p evs"
    then obtain r where r: "evs = p @ r" by (auto elim: prefixE)
    with ok have "adds_up be p (OracleReplayer_init h)" by (simp add: adds_up_append)
    with replay_loop_adds_up [of p be h] show
      "unat (current_memory (stats (replay_loop be p (OracleReplayer_init h)))) =
             live_bytes (replay_loop be p (OracleReplayer_init h)) \<and>
           unat (peak_memory (stats (replay_loop be p (OracleReplayer_init h)))) =
             Max ((\<lambda>q. unat (current_memory (stats (replay_loop be q (OracleReplayer_init h))))) `
                  set (prefixes p))"
      by (simp add: accounted_def)
  qed
  have i: "pending_frees (OracleReplayer_init h :: 'a OracleReplayer) = []"
    by (simp add: OracleReplayer_init_def)
  have fin: "replay be evs (OracleReplayer_init h) =
      drain_in_order be (replay_loop be evs (OracleReplayer_init h))"
    using i by (rule replay_drain)
  from ok replay_loop_adds_up [of evs be h]
  have "accounted (replay_loop be evs (OracleReplayer_init h))" by simp
  note D = drain_accounted [OF this, of be]
  show "unat (current_memory (stats (replay be evs (OracleReplayer_init h)))) =
           live_bytes (replay be evs (OracleReplayer_init h))"
    using D(1) by (simp add: fin accounted_def)
  show "peak_memory (stats (replay be evs (OracleReplayer_init h))) =
           peak_memory (stats (replay_loop be evs (OracleReplayer_init h)))"
    using D(3) by (simp add: fin)
qed

lemma recordAllocation_peak:
  "peakMemoryUsage (recordAllocation sz st) =
     (if peakMemoryUsage st < currentMemoryUsage st + sz then currentMemoryUsage st + sz
      else peakMemoryUsage st)"
  by (simp add: recordAllocation_def Let_def)

lemma recordDeallocation_peak [simp]:
  "peakMemoryUsage (recordDeallocation sz st) = peakMemoryUsage st"
  by (simp add: recordDeallocation_def)

lemma recordGC_peak [simp]: "peakMemoryUsage (recordGC t st) = peakMemoryUsage st"
  by (simp add: recordGC_def)

lemma em_init_accounted: "em_accounted (ExplicitMemoryManager_init h)"
  by (simp add: em_accounted_def ExplicitMemoryManager_init_def Statistics_init_def)

lemma gc_init_accounted: "gc_accounted (GCSimulator_init h th n)"
  by (simp add: gc_accounted_def GCSimulator_init_def Statistics_init_def)

lemma explicit_deallocate_accounted:
  assumes acc: "em_accounted s"
  shows "em_accounted (explicit_deallocate be oid sz s)"
proof (cases "em_allocations s oid")
  case None
  with acc show ?thesis by (simp add: explicit_deallocate_def)
next
  case (Some p)
  from acc have fin: "finite (dom (em_sizes s))"
    and dm: "dom (em_allocations s) = dom (em_sizes s)"
    and cur: "unat (currentMemoryUsage (em_stats s)) = table_bytes (em_sizes s) (\<lambda>sz. sz)"
    and pk: "currentMemoryUsage (em_stats s) \<le> peakMemoryUsage (em_stats s)"
    by (simp_all add: em_accounted_def)
  from Some dm obtain n where n: "em_sizes s oid = Some n"
    by (metis domD domI)
  have split: "table_bytes (em_sizes s) (\<lambda>sz. sz) =
      unat n + table_bytes ((em_sizes s)(oid := None)) (\<lambda>sz. sz)"
    using table_bytes_remove [OF fin n, of "\<lambda>sz. sz"] by simp
  then have le: "n \<le> currentMemoryUsage (em_stats s)"
    using cur by (simp add: word_le_nat_alt)
  have sub: "unat (currentMemoryUsage (em_stats s) - n) =
      table_bytes ((em_sizes s)(oid := None)) (\<lambda>sz. sz)"
    using le split cur by (simp add: unat_sub)
  have dec: "currentMemoryUsage (em_stats s) - n \<le> peakMemoryUsage (em_stats s)"
    using le pk by (simp add: word_le_nat_alt unat_sub)
  show ?thesis
    using Some n fin dm sub dec
    by (auto simp: explicit_deallocate_def Let_def em_accounted_def map_at_def)
qed

lemma sweep_one_accounted:
  assumes acc: "gc_accounted s"
  shows "gc_accounted (sweep_one be s d)"
proof (cases "gc_allocations s d")
  case None
  with acc show ?thesis by (simp add: sweep_one_def)
next
  case (Some p)
  from acc have fin: "finite (dom (gc_sizes s))"
    and dm: "dom (gc_allocations s) = dom (gc_sizes s)"
    and cur: "unat (currentMemoryUsage (gc_stats s)) = table_bytes (gc_sizes s) (\<lambda>sz. sz)"
    and pk: "currentMemoryUsage (gc_stats s) \<le> peakMemoryUsage (gc_stats s)"
    by (simp_all add: gc_accounted_def)
  from Some dm obtain n where n: "gc_sizes s d = Some n"
    by (metis domD domI)
  have split: "table_bytes (gc_sizes s) (\<lambda>sz. sz) =
      unat n + table_bytes ((gc_sizes s)(d := None)) (\<lambda>sz. sz)"
    using table_bytes_remove [OF fin n, of "\<lambda>sz. sz"] by simp
  then have le: "n \<le> currentMemoryUsage (gc_stats s)"
    using cur by (simp add: word_le_nat_alt)
  have sub: "unat (currentMemoryUsage (gc_stats s) - n) =
      table_bytes ((gc_sizes s)(d := None)) (\<lambda>sz. sz)"
    using le split cur by (simp add: unat_sub)
  have dec: "currentMemoryUsage (gc_stats s) - n \<le> peakMemoryUsage (gc_stats s)"
    using le pk by (simp add: word_le_nat_alt unat_sub)
  show ?thesis
    using Some n fin dm sub dec
    by (auto simp: sweep_one_def Let_def gc_accounted_def map_at_def)
qed

lemma sweep_accounted: "gc_accounted s \<Longrightarrow> gc_accounted (foldl (sweep_one be) s ds)"
  by (induction ds arbitrary: s) (simp_all add: sweep_one_accounted)

lemma sweep_one_current_le:
  "gc_accounted s \<Longrightarrow> currentMemoryUsage (gc_stats (sweep_one be s d)) \<le> currentMemoryUsage (gc_stats s)"
proof (cases "gc_allocations s d")
  case None
  then show ?thesis by (simp add: sweep_one_def)
next
  case (Some p)
  assume acc: "gc_accounted s"
  then have fin: "finite (dom (gc_sizes s))"
    and dm: "dom (gc_allocations s) = dom (gc_sizes s)"
    and cur: "unat (currentMemoryUsage (gc_stats s)) = table_bytes (gc_sizes s) (\<lambda>sz. sz)"
    by (simp_all add: gc_accounted_def)
  from Some dm obtain n where n: "gc_sizes s d = Some n"
    by (metis domD domI)
  have "table_bytes (gc_sizes s) (\<lambda>sz. sz) =
      unat n + table_bytes ((gc_sizes s)(d := None)) (\<lambda>sz. sz)"
    using table_bytes_remove [OF fin n, of "\<lambda>sz. sz"] by simp
  then have "n \<le> currentMemoryUsage (gc_stats s)"
    using cur by (simp add: word_le_nat_alt)
  then show ?thesis
    using Some n by (simp add: sweep_one_def Let_def map_at_def word_le_nat_alt unat_sub)
qed

lemma sweep_current_le:
  "gc_accounted s \<Longrightarrow>
   currentMemoryUsage (gc_stats (foldl (sweep_one be) s ds)) \<le> currentMemoryUsage (gc_stats s)"
proof (induction ds arbitrary: s)
  case Nil
  then show ?case by simp
next
  case (Cons d ds)
  from Cons.IH [OF sweep_one_accounted [OF Cons.prems, of be d]]
    sweep_one_current_le [OF Cons.prems, of be d]
  show ?case by simp
qed

lemma gc_accounted_fields [simp]:
  "gc_accounted (s\<lparr>deadObjects := q\<rparr>) = gc_accounted s"
  "gc_accounted (s\<lparr>allocationsSinceLastGC := c\<rparr>) = gc_accounted s"
  "gc_accounted (s\<lparr>gc_heap := h\<rparr>) = gc_accounted s"
  by (simp_all add: gc_accounted_def)

lemma performGC_accounted:
  assumes "gc_accounted s"
  shows "gc_accounted (performGC be clock s)"
    and "currentMemoryUsage (gc_stats (performGC be clock s)) \<le> currentMemoryUsage (gc_stats s)"
proof -
  have 1: "gc_accounted (foldl (sweep_one be) s (deadObjects s))"
    using assms by (rule sweep_accounted)
  then show "gc_accounted (performGC be clock s)"
    by (simp add: performGC_def Let_def gc_accounted_def)
  show "currentMemoryUsage (gc_stats (performGC be clock s)) \<le> currentMemoryUsage (gc_stats s)"
    using sweep_current_le [OF assms, of be "deadObjects s"]
    by (simp add: performGC_def Let_def)
qed

lemma never_fails_alloc:
  "backend_allocate never_fails sz n = (2 * word_of_nat n + 1, Suc n)"
  by (simp add: never_fails_def scripted_backend_def)

lemma explicit_allocate_step:
  assumes acc: "em_accounted s"
  shows "em_accounted (snd (explicit_allocate be sz oid arr s)) \<longleftrightarrow>
           fst (backend_allocate be sz (em_heap s)) = 0 \<or>
           (replaced_bytes (em_sizes s) (\<lambda>sz. sz) oid = 0 \<and>
            unat (currentMemoryUsage (em_stats s)) + unat sz < 2 ^ 64)"
    and "peakMemoryUsage (em_stats (snd (explicit_allocate be sz oid arr s))) =
           max (peakMemoryUsage (em_stats s))
               (currentMemoryUsage (em_stats (snd (explicit_allocate be sz oid arr s))))"
proof -
  from acc have fin: "finite (dom (em_sizes s))"
    and dm: "dom (em_allocations s) = dom (em_sizes s)"
    and cur: "unat (currentMemoryUsage (em_stats s)) = table_bytes (em_sizes s) (\<lambda>sz. sz)"
    and pk: "currentMemoryUsage (em_stats s) \<le> peakMemoryUsage (em_stats s)"
    by (simp_all add: em_accounted_def)
  have upd: "table_bytes ((em_sizes s)(oid \<mapsto> sz)) (\<lambda>sz. sz) +
        replaced_bytes (em_sizes s) (\<lambda>sz. sz) oid =
        unat sz + unat (currentMemoryUsage (em_stats s))"
    using table_bytes_update [OF fin, of oid sz "\<lambda>sz. sz"] cur by simp
  note iff = counter_add_iff [OF upd replaced_bytes_bound]
  show "em_accounted (snd (explicit_allocate be sz oid arr s)) \<longleftrightarrow>
           fst (backend_allocate be sz (em_heap s)) = 0 \<or>
           (replaced_bytes (em_sizes s) (\<lambda>sz. sz) oid = 0 \<and>
            unat (currentMemoryUsage (em_stats s)) + unat sz < 2 ^ 64)"
  proof (cases "fst (backend_allocate be sz (em_heap s)) = 0")
    case True
    then show ?thesis
      using acc by (simp add: explicit_allocate_def split_beta Let_def em_accounted_def)
  next
    case False
    then show ?thesis
      using fin dm iff
      by (simp add: explicit_allocate_def split_beta Let_def em_accounted_def
          recordAllocation_peak word_le_nat_alt word_less_nat_alt)
  qed
  show "peakMemoryUsage (em_stats (snd (explicit_allocate be sz oid arr s))) =
           max (peakMemoryUsage (em_stats s))
               (currentMemoryUsage (em_stats (snd (explicit_allocate be sz oid arr s))))"
    using pk
    by (auto simp: explicit_allocate_def split_beta Let_def recordAllocation_peak max_def)
qed

lemma explicit_deallocate_peak:
  assumes "em_accounted s"
  shows "peakMemoryUsage (em_stats (explicit_deallocate be oid sz s)) =
           max (peakMemoryUsage (em_stats s))
               (currentMemoryUsage (em_stats (explicit_deallocate be oid sz s)))"
proof -
  have a: "em_accounted (explicit_deallocate be oid sz s)"
    using assms by (rule explicit_deallocate_accounted)
  have p: "peakMemoryUsage (em_stats (explicit_deallocate be oid sz s)) = peakMemoryUsage (em_stats s)"
    by (simp add: explicit_deallocate_def Let_def split: option.split)
  from a have "currentMemoryUsage (em_stats (explicit_deallocate be oid sz s)) \<le>
      peakMemoryUsage (em_stats (explicit_deallocate be oid sz s))"
    by (simp add: em_accounted_def)
  with p show ?thesis by (simp add: max_def)
qed

lemma sweep_one_peak [simp]:
  "peakMemoryUsage (gc_stats (sweep_one be s d)) = peakMemoryUsage (gc_stats s)"
  by (simp add: sweep_one_def Let_def split: option.split)

lemma sweep_peak [simp]:
  "peakMemoryUsage (gc_stats (foldl (sweep_one be) s ds)) = peakMemoryUsage (gc_stats s)"
  by (induction ds arbitrary: s) simp_all

lemma performGC_peak [simp]:
  "peakMemoryUsage (gc_stats (performGC be clock s)) = peakMemoryUsage (gc_stats s)"
  by (simp add: performGC_def Let_def)

lemma gc_insert_accounted:
  assumes acc: "gc_accounted s"
    and none: "replaced_bytes (gc_sizes s) (\<lambda>sz. sz) oid = 0"
    and fits: "unat (currentMemoryUsage (gc_stats s)) + unat sz < 2 ^ 64"
  shows "gc_accounted (s\<lparr>gc_heap := h,
                 gc_allocations := (gc_allocations s)(oid \<mapsto> p),
                 gc_sizes := (gc_sizes s)(oid \<mapsto> sz),
                 gc_stats := recordAllocation sz (gc_stats s),
                 allocationsSinceLastGC := allocationsSinceLastGC s + 1\<rparr>)"
proof -
  from acc have fin: "finite (dom (gc_sizes s))"
    and dm: "dom (gc_allocations s) = dom (gc_sizes s)"
    and cur: "unat (currentMemoryUsage (gc_stats s)) = table_bytes (gc_sizes s) (\<lambda>sz. sz)"
    and pk: "currentMemoryUsage (gc_stats s) \<le> peakMemoryUsage (gc_stats s)"
    by (simp_all add: gc_accounted_def)
  have upd: "table_bytes ((gc_sizes s)(oid \<mapsto> sz)) (\<lambda>sz. sz) +
        replaced_bytes (gc_sizes s) (\<lambda>sz. sz) oid =
        unat sz + unat (currentMemoryUsage (gc_stats s))"
    using table_bytes_update [OF fin, of oid sz "\<lambda>sz. sz"] cur by simp
  note iff = counter_add_iff [OF upd replaced_bytes_bound]
  show ?thesis
    using fin dm iff none fits
    by (simp add: gc_accounted_def recordAllocation_peak word_le_nat_alt word_less_nat_alt)
qed

lemma gc_allocate_via_insert:
  "gc_allocate be clock sz oid arr s =
     (let b = gc_before_insert be clock sz s;
          p = fst (backend_allocate be sz (gc_heap b))
      in if p = 0 then (0, b\<lparr>gc_heap := snd (backend_allocate be sz (gc_heap b))\<rparr>)
         else let s4 = b\<lparr>gc_heap := snd (backend_allocate be sz (gc_heap b)),
                        gc_allocations := (gc_allocations b)(oid \<mapsto> p),
                        gc_sizes := (gc_sizes b)(oid \<mapsto> sz),
                        gc_stats := recordAllocation sz (gc_stats b),
                        allocationsSinceLastGC := allocationsSinceLastGC b + 1\<rparr>
              in (p, if gcThreshold s < currentMemoryUsage (gc_stats b) + sz \<or>
                        allocationThreshold s < allocationsSinceLastGC b + 1
                     then performGC be clock s4 else s4))"
    if "fst (backend_allocate be sz (gc_heap s)) = 0"
  using that
  by (simp add: gc_allocate_first_null gc_before_insert_def Let_def gc_allocate_first_ok)

lemma gc_before_insert_accounted:
  "gc_accounted s \<Longrightarrow> gc_accounted (gc_before_insert be clock sz s)"
  by (simp add: gc_before_insert_def performGC_accounted(1))

lemma gc_allocate_accounted:
  assumes acc: "gc_accounted s"
    and ok: "fst (gc_allocate be clock sz oid arr s) = 0 \<or>
       (replaced_bytes (gc_sizes (gc_before_insert be clock sz s)) (\<lambda>sz. sz) oid = 0 \<and>
        unat (currentMemoryUsage (gc_stats (gc_before_insert be clock sz s))) + unat sz < 2 ^ 64)"
  shows "gc_accounted (snd (gc_allocate be clock sz oid arr s))"
proof (cases "fst (backend_allocate be sz (gc_heap s)) = 0")
  case False
  then have b: "gc_before_insert be clock sz s = s" by (simp add: gc_before_insert_def)
  from False have nz: "fst (gc_allocate be clock sz oid arr s) \<noteq> 0"
    by (simp add: gc_allocate_first_ok Let_def)
  let ?s4 = "s\<lparr>gc_heap := snd (backend_allocate be sz (gc_heap s)),
                 gc_allocations := (gc_allocations s)(oid \<mapsto> fst (backend_allocate be sz (gc_heap s))),
                 gc_sizes := (gc_sizes s)(oid \<mapsto> sz),
                 gc_stats := recordAllocation sz (gc_stats s),
                 allocationsSinceLastGC := allocationsSinceLastGC s + 1\<rparr>"
  have "gc_accounted ?s4" using acc ok nz b by (intro gc_insert_accounted) simp_all
  with performGC_accounted(1) [of ?s4 be clock] False show ?thesis
    by (simp add: gc_allocate_first_ok Let_def)
next
  case True
  let ?b = "gc_before_insert be clock sz s"
  have bacc: "gc_accounted ?b" using acc by (rule gc_before_insert_accounted)
  show ?thesis
  proof (cases "fst (backend_allocate be sz (gc_heap ?b)) = 0")
    case T2: True
    with True bacc show ?thesis
      by (simp add: gc_allocate_via_insert Let_def)
  next
    case F2: False
    with True have nz: "fst (gc_allocate be clock sz oid arr s) \<noteq> 0"
      by (simp add: gc_allocate_via_insert Let_def)
    let ?s4 = "?b\<lparr>gc_heap := snd (backend_allocate be sz (gc_heap ?b)),
                 gc_allocations := (gc_allocations ?b)(oid \<mapsto> fst (backend_allocate be sz (gc_heap ?b))),
                 gc_sizes := (gc_sizes ?b)(oid \<mapsto> sz),
                 gc_stats := recordAllocation sz (gc_stats ?b),
                 allocationsSinceLastGC := allocationsSinceLastGC ?b + 1\<rparr>"
    have "gc_accounted ?s4" using bacc ok nz by (intro gc_insert_accounted) simp_all
    with performGC_accounted(1) [of ?s4 be clock] True F2 show ?thesis
      by (simp add: gc_allocate_via_insert Let_def)
  qed
qed

lemma gc_allocate_peak:
  "peakMemoryUsage (gc_stats (snd (gc_allocate be clock sz oid arr s))) =
     (if fst (gc_allocate be clock sz oid arr s) = 0 then peakMemoryUsage (gc_stats s)
      else max (peakMemoryUsage (gc_stats s))
               (currentMemoryUsage (gc_stats (gc_before_insert be clock sz s)) + sz))"
proof (cases "fst (backend_allocate be sz (gc_heap s)) = 0")
  case False
  then show ?thesis
    by (auto simp: gc_allocate_first_ok Let_def gc_before_insert_def recordAllocation_peak max_def)
next
  case True
  have pb: "peakMemoryUsage (gc_stats (gc_before_insert be clock sz s)) = peakMemoryUsage (gc_stats s)"
    by (simp add: gc_before_insert_def)
  show ?thesis
    using True pb
    by (auto simp: gc_allocate_via_insert Let_def recordAllocation_peak max_def)
qed

lemma gc_scenario_peak:
  "(let s0 = GCSimulator_init (0::nat) default_gcThreshold 2;
         s1 = snd (gc_allocate never_fails (\<lambda>n. 0) 10 1 False s0);
         s2 = gc_deallocate 1 10 s1;
         s3 = snd (gc_allocate never_fails (\<lambda>n. 0) 20 2 False s2);
         s4 = gc_deallocate 2 20 s3;
         s5 = snd (gc_allocate never_fails (\<lambda>n. 0) 30 3 False s4)
     in map (\<lambda>s. currentMemoryUsage (gc_stats s)) [s0, s1, s2, s3, s4, s5] = [0, 10, 10, 30, 30, 30] \<and>
        peakMemoryUsage (gc_stats s5) = 60)"
proof -
  define s0 where "s0 = GCSimulator_init (0::nat) default_gcThreshold 2"
  define s1 where "s1 = snd (gc_allocate never_fails (\<lambda>n. 0) 10 1 False s0)"
  define s2 where "s2 = gc_deallocate 1 10 s1"
  define s3 where "s3 = snd (gc_allocate never_fails (\<lambda>n. 0) 20 2 False s2)"
  define s4 where "s4 = gc_deallocate 2 20 s3"
  define s5 where "s5 = snd (gc_allocate never_fails (\<lambda>n. 0) 30 3 False s4)"
  have f0: "gcThreshold s0 = default_gcThreshold" "allocationThreshold s0 = 2"
    "allocationsSinceLastGC s0 = 0" "currentMemoryUsage (gc_stats s0) = 0"
    "peakMemoryUsage (gc_stats s0) = 0" "deadObjects s0 = []"
    "gc_allocations s0 = Map.empty" "gc_sizes s0 = Map.empty"
    by (simp_all add: s0_def GCSimulator_init_def Statistics_init_def)
  have f1: "gcThreshold s1 = default_gcThreshold" "allocationThreshold s1 = 2"
    "allocationsSinceLastGC s1 = 1" "currentMemoryUsage (gc_stats s1) = 10"
    "peakMemoryUsage (gc_stats s1) = 10" "deadObjects s1 = []"
    "gc_sizes s1 = [1 \<mapsto> 10]" "dom (gc_allocations s1) = {1}"
    using f0
    by (simp_all add: s1_def gc_allocate_first_ok [OF never_fails_ok] Let_def recordAllocation_peak
        default_gcThreshold_def)
  have f2: "gcThreshold s2 = default_gcThreshold" "allocationThreshold s2 = 2"
    "allocationsSinceLastGC s2 = 1" "currentMemoryUsage (gc_stats s2) = 10"
    "peakMemoryUsage (gc_stats s2) = 10" "deadObjects s2 = [1]"
    "gc_sizes s2 = [1 \<mapsto> 10]" "dom (gc_allocations s2) = {1}"
    using f1 by (simp_all add: s2_def gc_deallocate_def)
  have f3: "gcThreshold s3 = default_gcThreshold" "allocationThreshold s3 = 2"
    "allocationsSinceLastGC s3 = 2" "currentMemoryUsage (gc_stats s3) = 30"
    "peakMemoryUsage (gc_stats s3) = 30" "deadObjects s3 = [1]"
    "gc_sizes s3 = [1 \<mapsto> 10, 2 \<mapsto> 20]" "dom (gc_allocations s3) = {1, 2}"
    using f2
    by (simp_all add: s3_def gc_allocate_first_ok [OF never_fails_ok] Let_def recordAllocation_peak
        default_gcThreshold_def insert_commute)
  have f4: "gcThreshold s4 = default_gcThreshold" "allocationThreshold s4 = 2"
    "allocationsSinceLastGC s4 = 2" "currentMemoryUsage (gc_stats s4) = 30"
    "peakMemoryUsage (gc_stats s4) = 30" "deadObjects s4 = [2, 1]"
    "gc_sizes s4 = [1 \<mapsto> 10, 2 \<mapsto> 20]" "dom (gc_allocations s4) = {1, 2}"
    using f3 by (simp_all add: s4_def gc_deallocate_def)
  have a4: "gc_allocations s4 1 \<noteq> None" "gc_allocations s4 2 \<noteq> None"
    using f4(8) by (auto simp: domIff [symmetric])
  have f5: "currentMemoryUsage (gc_stats s5) = 30" "peakMemoryUsage (gc_stats s5) = 60"
    using f4 a4
    by (auto simp: s5_def gc_allocate_first_ok [OF never_fails_ok] Let_def performGC_def sweep_one_def map_at_def
        recordAllocation_peak default_gcThreshold_def)
  show ?thesis
    unfolding Let_def
    using f0 f1 f2 f3 f4 f5
    by (simp add: s0_def s1_def s2_def s3_def s4_def s5_def)
qed

text \<open>
  Claim C2, as amended. After every prefix of a replayed trace the oracle replayer's
  current-live-bytes is the sum of the sizes of the objects in the live object table
  (a sum of naturals, so no release has taken the counter below zero) exactly when the
  trace adds up: every Alloc that the backend grants writes its entry over no bytes,
  which is so whenever its id is not in the table once the queue has been drained, and
  keeps the total below \<open>2 ^ 64\<close>. On such a trace peak-live-bytes after a prefix is the
  maximum of current-live-bytes over the states after the prefixes of that prefix, and
  the equality also holds after the final drain, which leaves the peak as it was.

  In the explicit manager the equality holds at the start; from a state in which it
  holds, \<open>allocate\<close> keeps it exactly when the backend refuses the request or the entry
  is written over no bytes and the total stays below \<open>2 ^ 64\<close>, \<open>deallocate\<close> always keeps
  it, and after either the peak is the maximum of the old peak and the new current
  value. In the GC simulator the equality holds at the start and is kept by \<open>allocate\<close>
  under the same condition, read in the state in which the insertion is made, by
  \<open>deallocate\<close>, which leaves the statistics alone, and by a collection, which lowers the
  current value and leaves the peak alone. The peak after \<open>allocate\<close> is the maximum of
  the old peak and the current value recorded at the insertion, before the collection
  that the allocation may start, and is the old peak when the allocation fails.
\<close>

theorem C2_live_bytes_accounting:
  "((\<forall>q. prefix q evs \<longrightarrow>
        unat (current_memory (stats (replay_loop be q (OracleReplayer_init h)))) =
        live_bytes (replay_loop be q (OracleReplayer_init h)))
      \<longleftrightarrow> adds_up be evs (OracleReplayer_init h)) \<and>
   (adds_up be evs (OracleReplayer_init h) \<and> prefix p evs \<longrightarrow>
      unat (current_memory (stats (replay_loop be p (OracleReplayer_init h)))) =
        live_bytes (replay_loop be p (OracleReplayer_init h)) \<and>
      unat (peak_memory (stats (replay_loop be p (OracleReplayer_init h)))) =
        Max ((\<lambda>q. unat (current_memory (stats (replay_loop be q (OracleReplayer_init h))))) `
             set (prefixes p)) \<and>
      unat (current_memory (stats (replay be evs (OracleReplayer_init h)))) =
        live_bytes (replay be evs (OracleReplayer_init h)) \<and>
      peak_memory (stats (replay be evs (OracleReplayer_init h))) =
        peak_memory (stats (replay_loop be evs (OracleReplayer_init h)))) \<and>
   em_accounted (ExplicitMemoryManager_init h) \<and>
   (em_accounted s \<longrightarrow>
      (em_accounted (snd (explicit_allocate be sz oid arr s)) \<longleftrightarrow>
         fst (backend_allocate be sz (em_heap s)) = 0 \<or>
         (replaced_bytes (em_sizes s) (\<lambda>sz. sz) oid = 0 \<and>
          unat (currentMemoryUsage (em_stats s)) + unat sz < 2 ^ 64)) \<and>
      peakMemoryUsage (em_stats (snd (explicit_allocate be sz oid arr s))) =
        max (peakMemoryUsage (em_stats s))
            (currentMemoryUsage (em_stats (snd (explicit_allocate be sz oid arr s)))) \<and>
      em_accounted (explicit_deallocate be oid sz s) \<and>
      peakMemoryUsage (em_stats (explicit_deallocate be oid sz s)) =
        max (peakMemoryUsage (em_stats s))
            (currentMemoryUsage (em_stats (explicit_deallocate be oid sz s)))) \<and>
   gc_accounted (GCSimulator_init h th n) \<and>
   (gc_accounted g \<and>
    (fst (gc_allocate be clock sz oid arr g) = 0 \<or>
     (replaced_bytes (gc_sizes (gc_before_insert be clock sz g)) (\<lambda>sz. sz) oid = 0 \<and>
      unat (currentMemoryUsage (gc_stats (gc_before_insert be clock sz g))) + unat sz < 2 ^ 64)) \<longrightarrow>
      gc_accounted (snd (gc_allocate be clock sz oid arr g))) \<and>
   peakMemoryUsage (gc_stats (snd (gc_allocate be clock sz oid arr g))) =
     (if fst (gc_allocate be clock sz oid arr g) = 0 then peakMemoryUsage (gc_stats g)
      else max (peakMemoryUsage (gc_stats g))
               (currentMemoryUsage (gc_stats (gc_before_insert be clock sz g)) + sz)) \<and>
   (gc_accounted g \<longrightarrow>
      gc_accounted (gc_deallocate oid sz g) \<and>
      gc_stats (gc_deallocate oid sz g) = gc_stats g \<and>
      gc_accounted (performGC be clock g) \<and>
      peakMemoryUsage (gc_stats (performGC be clock g)) = peakMemoryUsage (gc_stats g) \<and>
      currentMemoryUsage (gc_stats (performGC be clock g)) \<le> currentMemoryUsage (gc_stats g))"
proof -
  have orc1: "(\<forall>q. prefix q evs \<longrightarrow>
        unat (current_memory (stats (replay_loop be q (OracleReplayer_init h)))) =
        live_bytes (replay_loop be q (OracleReplayer_init h)))
      \<longleftrightarrow> adds_up be evs (OracleReplayer_init h)"
    using replay_loop_adds_up [of evs be h] by blast
  have orc2: "adds_up be evs (OracleReplayer_init h) \<and> prefix p evs \<longrightarrow>
      unat (current_memory (stats (replay_loop be p (OracleReplayer_init h)))) =
        live_bytes (replay_loop be p (OracleReplayer_init h)) \<and>
      unat (peak_memory (stats (replay_loop be p (OracleReplayer_init h)))) =
        Max ((\<lambda>q. unat (current_memory (stats (replay_loop be q (OracleReplayer_init h))))) `
             set (prefixes p)) \<and>
      unat (current_memory (stats (replay be evs (OracleReplayer_init h)))) =
        live_bytes (replay be evs (OracleReplayer_init h)) \<and>
      peak_memory (stats (replay be evs (OracleReplayer_init h))) =
        peak_memory (stats (replay_loop be evs (OracleReplayer_init h)))"
    using replay_adds_up [of be evs h] by blast
  have em: "em_accounted s \<longrightarrow>
      (em_accounted (snd (explicit_allocate be sz oid arr s)) \<longleftrightarrow>
         fst (backend_allocate be sz (em_heap s)) = 0 \<or>
         (replaced_bytes (em_sizes s) (\<lambda>sz. sz) oid = 0 \<and>
          unat (currentMemoryUsage (em_stats s)) + unat sz < 2 ^ 64)) \<and>
      peakMemoryUsage (em_stats (snd (explicit_allocate be sz oid arr s))) =
        max (peakMemoryUsage (em_stats s))
            (currentMemoryUsage (em_stats (snd (explicit_allocate be sz oid arr s)))) \<and>
      em_accounted (explicit_deallocate be oid sz s) \<and>
      peakMemoryUsage (em_stats (explicit_deallocate be oid sz s)) =
        max (peakMemoryUsage (em_stats s))
            (currentMemoryUsage (em_stats (explicit_deallocate be oid sz s)))"
    using explicit_allocate_step [of s be sz oid arr] explicit_deallocate_accounted [of s be oid sz]
      explicit_deallocate_peak [of s be oid sz]
    by blast
  have gc1: "gc_accounted g \<and>
    (fst (gc_allocate be clock sz oid arr g) = 0 \<or>
     (replaced_bytes (gc_sizes (gc_before_insert be clock sz g)) (\<lambda>sz. sz) oid = 0 \<and>
      unat (currentMemoryUsage (gc_stats (gc_before_insert be clock sz g))) + unat sz < 2 ^ 64)) \<longrightarrow>
      gc_accounted (snd (gc_allocate be clock sz oid arr g))"
    using gc_allocate_accounted [of g be clock sz oid arr] by blast
  have gc2: "gc_accounted g \<longrightarrow>
      gc_accounted (gc_deallocate oid sz g) \<and>
      gc_stats (gc_deallocate oid sz g) = gc_stats g \<and>
      gc_accounted (performGC be clock g) \<and>
      peakMemoryUsage (gc_stats (performGC be clock g)) = peakMemoryUsage (gc_stats g) \<and>
      currentMemoryUsage (gc_stats (performGC be clock g)) \<le> currentMemoryUsage (gc_stats g)"
    using performGC_accounted [of g be clock]
    by (simp add: gc_deallocate_def gc_accounted_def)
  show ?thesis
    using orc1 orc2 em gc1 gc2 em_init_accounted [of h] gc_init_accounted [of h th n]
      gc_allocate_peak [of be clock sz oid arr g]
    by blast
qed

text \<open>
  The trace alloc 1 (16 bytes), free 1, alloc 1 (32 bytes) on a backend that does not
  fail adds up and ends with 32 live bytes; the first operations of the two managers.
\<close>

theorem C2_witness:
  "adds_up never_fails reuse_events (OracleReplayer_init 0) \<and>
   prefix reuse_events reuse_events \<and>
   unat (current_memory (stats (replay_loop never_fails reuse_events (OracleReplayer_init 0)))) = 32 \<and>
   live_bytes (replay_loop never_fails reuse_events (OracleReplayer_init 0)) = 32 \<and>
   unat (peak_memory (stats (replay_loop never_fails reuse_events (OracleReplayer_init 0)))) =
     Max ((\<lambda>q. unat (current_memory (stats (replay_loop never_fails q (OracleReplayer_init 0))))) `
          set (prefixes reuse_events)) \<and>
   unat (current_memory (stats (replay never_fails reuse_events (OracleReplayer_init 0)))) =
     live_bytes (replay never_fails reuse_events (OracleReplayer_init 0)) \<and>
   em_accounted (ExplicitMemoryManager_init (0::nat)) \<and>
   em_accounted (snd (explicit_allocate never_fails 16 1 False (ExplicitMemoryManager_init 0))) \<and>
   em_accounted (explicit_deallocate never_fails 1 16 (ExplicitMemoryManager_init 0)) \<and>
   gc_accounted gc0 \<and>
   gc_accounted (snd (gc_allocate never_fails (\<lambda>n. 0) 16 1 False gc0)) \<and>
   gc_accounted (gc_deallocate 1 16 gc0) \<and>
   gc_accounted (performGC never_fails (\<lambda>n. 0) gc0)"
proof -
  note inst = C2_live_bytes_accounting [where evs = reuse_events and be = never_fails
        and h = 0 and p = reuse_events and s = "ExplicitMemoryManager_init 0" and sz = 16
        and oid = 1 and arr = False and th = default_gcThreshold
        and n = default_allocationThreshold and g = gc0 and clock = "\<lambda>n. 0"]
  have 1: "adds_up never_fails reuse_events (OracleReplayer_init 0)"
    by (simp add: reuse_events_def alloc_adds_up_def drain_in_order_def replay_event_def
      is_alloc_def is_free_def process_allocation_alt process_free_def execute_free_def
      do_malloc_def do_free_def OracleReplayer_init_def oracle_Statistics_init_def
      record_allocation_def record_free_def Let_def map_at_def replaced_bytes_def)
  have 2: "prefix reuse_events reuse_events" by simp
  have 3: "unat (current_memory (stats (replay_loop never_fails reuse_events (OracleReplayer_init 0)))) = 32"
    by (simp add: replay_loop_def reuse_events_def replay_event_def
      is_alloc_def is_free_def process_allocation_alt process_free_def execute_free_def
      drain_in_order_def
      do_malloc_def do_free_def OracleReplayer_init_def oracle_Statistics_init_def
      record_allocation_def record_free_def Let_def map_at_def)
  have 4: "replaced_bytes (em_sizes (ExplicitMemoryManager_init (0::nat))) (\<lambda>sz. sz) 1 = 0"
    "unat (currentMemoryUsage (em_stats (ExplicitMemoryManager_init (0::nat)))) + unat (16 :: 64 word)
       < 2 ^ 64"
    by (simp_all add: ExplicitMemoryManager_init_def Statistics_init_def replaced_bytes_def)
  have 5: "gc_before_insert never_fails (\<lambda>n. 0) 16 gc0 = gc0"
    by (simp add: gc_before_insert_def)
  have 6: "replaced_bytes (gc_sizes gc0) (\<lambda>sz. sz) 1 = 0"
    "unat (currentMemoryUsage (gc_stats gc0)) + unat (16 :: 64 word) < 2 ^ 64"
    by (simp_all add: gc0_def GCSimulator_init_def Statistics_init_def replaced_bytes_def)
  have 7: "gc_accounted gc0"
    using inst by (simp add: gc0_def)
  show ?thesis
    using inst 1 2 3 4 5 6 7 by simp
qed

text \<open>
  Claim C2 as stated fails in three ways. When a trace allocates an id that is still
  live, the table keeps one entry per id, so the second allocation of object 1 replaces
  the first entry while the counter has counted both: current-live-bytes is 48 and the
  table holds 32 bytes. When the sizes of the live objects sum to \<open>2 ^ 64\<close> or more the
  64-bit counter wraps: it reads 1 while the table holds \<open>2 ^ 64 + 1\<close> bytes. And in the
  GC simulator with an allocation threshold of 2, after allocations of 10, 20 and 30
  bytes with the first two objects reported dead, current-live-bytes after the six
  states is 0, 10, 10, 30, 30, 30 while the peak is 60: the third allocation recorded
  60 bytes before its own collection reclaimed 30 of them.
\<close>

theorem C2_counterexample:
  "unat (current_memory (stats (replay_loop never_fails dup_events (OracleReplayer_init 0)))) = 48 \<and>
   live_bytes (replay_loop never_fails dup_events (OracleReplayer_init 0)) = 32 \<and>
   unat (current_memory (stats (replay_loop never_fails wrap_events (OracleReplayer_init 0)))) = 1 \<and>
   live_bytes (replay_loop never_fails wrap_events (OracleReplayer_init 0)) = 2 ^ 64 + 1 \<and>
   (let s0 = GCSimulator_init (0::nat) default_gcThreshold 2;
        s1 = snd (gc_allocate never_fails (\<lambda>n. 0) 10 1 False s0);
        s2 = gc_deallocate 1 10 s1;
        s3 = snd (gc_allocate never_fails (\<lambda>n. 0) 20 2 False s2);
        s4 = gc_deallocate 2 20 s3;
        s5 = snd (gc_allocate never_fails (\<lambda>n. 0) 30 3 False s4)
    in map (\<lambda>s. currentMemoryUsage (gc_stats s)) [s0, s1, s2, s3, s4, s5] = [0, 10, 10, 30, 30, 30] \<and>
       peakMemoryUsage (gc_stats s5) = 60)"
proof -
  have dup: "unat (current_memory (stats (replay_loop never_fails dup_events (OracleReplayer_init 0)))) = 48"
    "live_bytes (replay_loop never_fails dup_events (OracleReplayer_init 0)) = 32"
    by (simp_all add: replay_loop_def dup_events_def replay_event_def is_alloc_def
      process_allocation_def do_malloc_def OracleReplayer_init_def oracle_Statistics_init_def
      live_bytes_def table_bytes_def record_allocation_def Let_def map_at_def
      never_fails_alloc)
  have wrap: "unat (current_memory (stats (replay_loop never_fails wrap_events (OracleReplayer_init 0)))) = 1"
    "live_bytes (replay_loop never_fails wrap_events (OracleReplayer_init 0)) = 2 ^ 64 + 1"
    by (simp_all add: replay_loop_def wrap_events_def replay_event_def is_alloc_def
      process_allocation_def do_malloc_def OracleReplayer_init_def oracle_Statistics_init_def
      live_bytes_def table_bytes_def record_allocation_def Let_def map_at_def
      never_fails_alloc)
  show ?thesis
    using dup wrap gc_scenario_peak by simp
qed

end
